theory Spec2Isabelle
  imports Main "HOL-Library.Char_ord" "HOL-Library.List_Lexorder" "HOL-Library.AList"
begin

chapter \<open>The crawl engine of the scraper scripts\<close>

text \<open>
  The repository is a collection of independent Python scripts. Each of them is an
  instance of one pattern: a frontier of candidate URLs, a durable tracker of finished
  URLs, a worker that fetches one URL with retries, a scheduler that runs batches of
  workers under a download cap, and (in \<^verbatim>\<open>bbc-articles.py\<close>) a progress file.
  This theory embeds the functions of that pattern, script by script, and states what
  they guarantee.

  Conventions of the embedding.
  \<^item> A Python \<^verbatim>\<open>str\<close> is a \<^typ>\<open>string\<close>; a character is a code point below 256.
  \<^item> The local file system is a total store from paths to files. A file is absent,
    unreadable as UTF-8 text, or holds text. Reading can fail; writing and appending
    always succeed (disk-full and permission errors are outside the model).
  \<^item> The network (the crawler), the HTML adapters built on BeautifulSoup and the clock
    are parameters: a record of functions the scripts call.
  \<^item> An exception is a value of type \<open>exn\<close>; a \<^verbatim>\<open>try\<close> block is a computation
    into \<open>exn + 'a\<close> and its handler a case distinction on \<open>Inl\<close>.
  \<^item> Effects that a claim counts (fetches, sleeps, writes, tracker appends) are logged
    in a trace, in the order in which the code performs them.
  \<^item> The coroutines of one \<^verbatim>\<open>asyncio.gather\<close> are interleaved at their
    \<^verbatim>\<open>await\<close>s; which of them goes on next is a choice of the environment.
\<close>

section \<open>Text, lines and files\<close>

abbreviation LF :: char where "LF \<equiv> CHR 0x0A"
abbreviation CR :: char where "CR \<equiv> CHR 0x0D"
abbreviation TAB :: char where "TAB \<equiv> CHR 0x09"

text \<open>The characters below 256 for which \<^verbatim>\<open>str.isspace\<close> holds.\<close>

definition is_space :: "char \<Rightarrow> bool" where
  "is_space c = (c \<in> set [CHR 0x09, CHR 0x0A, CHR 0x0B, CHR 0x0C, CHR 0x0D,
       CHR 0x1C, CHR 0x1D, CHR 0x1E, CHR 0x1F, CHR 0x20, CHR 0x85, CHR 0xA0])"

text \<open>\<^verbatim>\<open>s.strip()\<close>: leading and trailing whitespace removed.\<close>

definition strip :: "string \<Rightarrow> string" where
  "strip s = rev (dropWhile is_space (rev (dropWhile is_space s)))"

text \<open>\<^verbatim>\<open>s.rstrip('/')\<close> and \<^verbatim>\<open>s.split('/')[-1]\<close>.\<close>

definition rstrip_slash :: "string \<Rightarrow> string" where
  "rstrip_slash s = rev (dropWhile (\<lambda>c. c = CHR ''/'') (rev s))"

definition last_segment :: "string \<Rightarrow> string" where
  "last_segment s = rev (takeWhile (\<lambda>c. c \<noteq> CHR ''/'') (rev s))"

text \<open>
  \<^verbatim>\<open>os.path.join(d, name)\<close> for a \<open>name\<close> that does not start with a slash (the
  only use the scripts make of it).
\<close>

definition path_join :: "string \<Rightarrow> string \<Rightarrow> string" where
  "path_join d name = (if d = [] \<or> last d = CHR ''/'' then d @ name else d @ ''/'' @ name)"

text \<open>
  A file opened in text mode is read with universal newlines: \<^verbatim>\<open>\r\n\<close> and a
  lone \<^verbatim>\<open>\r\<close> arrive as \<^verbatim>\<open>\n\<close>.
\<close>

fun universal_newlines :: "string \<Rightarrow> string" where
  "universal_newlines [] = []"
| "universal_newlines [c] = (if c = CR then [LF] else [c])"
| "universal_newlines (c # d # cs) =
     (if c = CR then (if d = LF then LF # universal_newlines cs
                      else LF # universal_newlines (d # cs))
      else c # universal_newlines (d # cs))"

text \<open>
  \<^verbatim>\<open>for line in f\<close>: the lines of a text, each with its terminating newline; the
  last one has none when the text does not end in a newline.
\<close>

fun file_lines :: "string \<Rightarrow> string list" where
  "file_lines [] = []"
| "file_lines (c # cs) =
     (if c = LF then [LF] # file_lines cs
      else (case file_lines cs of [] \<Rightarrow> [[c]] | l # ls \<Rightarrow> (c # l) # ls))"

datatype file_content = Absent | Unreadable | Text string

type_synonym store = "string \<Rightarrow> file_content"

datatype exn =
    FileNotFoundError
  | FileExistsError
  | UnicodeDecodeError
  | JSONDecodeError
  | KeyError string
  | TypeError
  | AttributeError
  | ValueError
  | OverflowError
  | RecursionError
  | KeyboardInterrupt
  | CrawlError string

text \<open>\<^verbatim>\<open>open(path, 'r', encoding='utf-8')\<close> followed by reading the whole file.\<close>

definition read_text :: "store \<Rightarrow> string \<Rightarrow> exn + string" where
  "read_text fs path =
     (case fs path of
        Absent \<Rightarrow> Inl FileNotFoundError
      | Unreadable \<Rightarrow> Inl UnicodeDecodeError
      | Text c \<Rightarrow> Inr (universal_newlines c))"

text \<open>\<^verbatim>\<open>open(path, 'a')\<close> and one \<^verbatim>\<open>write\<close>; the file is created when absent.\<close>

definition append_text :: "store \<Rightarrow> string \<Rightarrow> string \<Rightarrow> store" where
  "append_text fs path s =
     fs(path := (case fs path of
                   Absent \<Rightarrow> Text s
                 | Unreadable \<Rightarrow> Unreadable
                 | Text c \<Rightarrow> Text (c @ s)))"

text \<open>\<^verbatim>\<open>open(path, 'w')\<close> and one \<^verbatim>\<open>write\<close>.\<close>

definition write_text :: "store \<Rightarrow> string \<Rightarrow> string \<Rightarrow> store" where
  "write_text fs path s = fs(path := Text s)"

definition path_exists :: "store \<Rightarrow> string \<Rightarrow> bool" where
  "path_exists fs path = (fs path \<noteq> Absent)"

section \<open>independent.py: tracker and frontier files\<close>

text \<open>
  \<^verbatim>\<open>load_tracked_urls(filename)\<close>: the set of the stripped non-blank lines; any
  exception while reading gives the empty set.
\<close>

definition load_tracked_urls :: "store \<Rightarrow> string \<Rightarrow> string set" where
  "load_tracked_urls fs filename =
     (case read_text fs filename of
        Inl e \<Rightarrow> {}
      | Inr txt \<Rightarrow> set (map strip (filter (\<lambda>line. strip line \<noteq> []) (file_lines txt))))"

text \<open>
  \<^verbatim>\<open>load_candidate_urls(filename)\<close>: the loop over the lines with the list
  \<open>urls\<close> and the set \<open>seen\<close>; any exception gives the empty list.
\<close>

fun candidate_loop :: "string list \<Rightarrow> string list \<Rightarrow> string set \<Rightarrow> string list" where
  "candidate_loop [] urls seen = urls"
| "candidate_loop (line # rest) urls seen =
     (let url = strip line
      in if url \<noteq> [] \<and> url \<notin> seen
         then candidate_loop rest (urls @ [url]) (insert url seen)
         else candidate_loop rest urls seen)"

definition load_candidate_urls :: "store \<Rightarrow> string \<Rightarrow> string list" where
  "load_candidate_urls fs filename =
     (case read_text fs filename of
        Inl e \<Rightarrow> []
      | Inr txt \<Rightarrow> candidate_loop (file_lines txt) [] {})"

text \<open>\<^verbatim>\<open>add_to_tracked(url, filename)\<close>: one line appended to the tracker log.\<close>

definition add_to_tracked :: "string \<Rightarrow> string \<Rightarrow> store \<Rightarrow> store" where
  "add_to_tracked url filename fs = append_text fs filename (url @ [LF])"

text \<open>
  \<^verbatim>\<open>add_to_failed(url, reason, config)\<close>: one line \<open>url TAB timestamp TAB reason\<close>
  appended to the error file.
\<close>

definition add_to_failed :: "string \<Rightarrow> string \<Rightarrow> string \<Rightarrow> string \<Rightarrow> store \<Rightarrow> store" where
  "add_to_failed url reason timestamp filename fs =
     append_text fs filename (url @ [TAB] @ timestamp @ [TAB] @ reason @ [LF])"

text \<open>
  \<^verbatim>\<open>update_urls_file(new_urls, config)\<close>: the new URLs that are not yet lines of
  the URLs file are appended to it in sorted order; the result is their number.
\<close>

definition update_urls_file :: "string set \<Rightarrow> string \<Rightarrow> store \<Rightarrow> store \<times> nat" where
  "update_urls_file new_urls filename fs =
     (let existing = load_tracked_urls fs filename;
          urls_to_add = new_urls - existing
      in if urls_to_add = {} then (fs, 0)
         else (fold (\<lambda>url fs'. append_text fs' filename (url @ [LF]))
                 (sorted_list_of_set urls_to_add) fs,
               card urls_to_add))"

section \<open>independent.py: the worker\<close>

text \<open>The configuration dictionary; the rate limit, a float, only sets the length of a sleep.\<close>

record config =
  download_dir :: string
  track_file :: string
  urls_file :: string
  error_file :: string
  max_downloads :: int
  seed_url :: string
  retry_count :: int
  retry_delay :: int
  batch_size :: int
  concurrent_requests :: int

text \<open>
  What \<^verbatim>\<open>await crawler.arun(url)\<close> does: it raises, with a message, or it returns a
  result with its \<^verbatim>\<open>html\<close> and its \<^verbatim>\<open>markdown\<close>, which may be \<^verbatim>\<open>None\<close>.
\<close>

datatype response = Raises string | Result string "string option"

text \<open>
  The external collaborators. \<open>arun url n\<close> is the answer to the \<open>n\<close>-th attempt of
  a worker on \<open>url\<close>, \<open>arun_cached\<close> the answer of \<^verbatim>\<open>arun(url, cache_only=True)\<close>,
  \<open>page_links\<close> the links a separate HTTP session finds on a page.
  \<open>is_valid_article\<close> and \<open>extract_links\<close> are the two BeautifulSoup functions of
  the script (both catch their own exceptions), \<open>url_path\<close> is
  \<^verbatim>\<open>urlparse(url).path\<close>, \<open>now\<close> the formatted time. \<open>next_worker\<close> is the
  event loop's choice among the suspended workers of one \<^verbatim>\<open>asyncio.gather\<close>: given
  the number of effects so far and the URLs of the suspended workers, in the order of their
  creation, it names the position (taken modulo their number) of the worker whose
  \<^verbatim>\<open>await\<close> ends next. It stands for the random jitter of the sleeps and the timing
  of the network.
\<close>

record env =
  arun :: "string \<Rightarrow> nat \<Rightarrow> response"
  arun_cached :: "string \<Rightarrow> response"
  page_links :: "string \<Rightarrow> string list"
  is_valid_article :: "string \<Rightarrow> bool"
  extract_links :: "string \<Rightarrow> string list"
  url_path :: "string \<Rightarrow> string"
  now :: string
  next_worker :: "nat \<Rightarrow> string list \<Rightarrow> nat"

datatype event =
    RateLimitSleep
  | RetrySleep int
  | Fetch string
  | CacheFetch string
  | LinkFetch string
  | OpenTruncate string
  | WriteArtifact string
  | TrackAppend string
  | FailAppend string

text \<open>
  The state the functions share: the files, the two sets \<^verbatim>\<open>tracked\<close> and
  \<^verbatim>\<open>failed\<close> that are passed by reference, and the trace of effects.
\<close>

record world =
  files :: store
  tracked :: "string set"
  failed :: "string set"
  trace :: "event list"

definition emit :: "event \<Rightarrow> world \<Rightarrow> world" where
  "emit e w = w\<lparr>trace := trace w @ [e]\<rparr>"

definition article_id :: "string \<Rightarrow> string" where
  "article_id url = last_segment (rstrip_slash url)"

definition outfile :: "config \<Rightarrow> string \<Rightarrow> string" where
  "outfile cfg url = path_join (download_dir cfg) (article_id url @ ''.md'')"

definition metadata :: "env \<Rightarrow> string \<Rightarrow> string" where
  "metadata env url =
     ''---\<newline>'' @ ''source_url: '' @ url @ ''\<newline>'' @ ''article_id: '' @ article_id url @ ''\<newline>''
     @ ''downloaded_at: '' @ now env @ ''\<newline>'' @ ''---\<newline>\<newline>''"

text \<open>\<^verbatim>\<open>add_to_tracked(url, config["track_file"]); tracked.add(url)\<close>\<close>

definition mark_tracked :: "config \<Rightarrow> string \<Rightarrow> world \<Rightarrow> world" where
  "mark_tracked cfg url w =
     emit (TrackAppend url)
       (w\<lparr>files := add_to_tracked url (track_file cfg) (files w), tracked := insert url (tracked w)\<rparr>)"

text \<open>\<^verbatim>\<open>add_to_failed(url, reason, config); failed.add(url)\<close>\<close>

definition mark_failed :: "config \<Rightarrow> env \<Rightarrow> string \<Rightarrow> string \<Rightarrow> world \<Rightarrow> world" where
  "mark_failed cfg env url reason w =
     emit (FailAppend url)
       (w\<lparr>files := add_to_failed url reason (now env) (error_file cfg) (files w),
         failed := insert url (failed w)\<rparr>)"

text \<open>What one iteration of a retry loop ends with: a \<^verbatim>\<open>return\<close>, or the next iteration.\<close>

datatype 'a step = Return 'a | Next

text \<open>
  The \<^verbatim>\<open>except Exception as e\<close> branch of the loop body: sleep
  \<^verbatim>\<open>retry_delay * attempt\<close> before another attempt, or record the failure after the
  last one.
\<close>

definition on_exception ::
  "config \<Rightarrow> env \<Rightarrow> string \<Rightarrow> int \<Rightarrow> string \<Rightarrow> world
     \<Rightarrow> world \<times> (bool \<times> string option) step" where
  "on_exception cfg env url attempt msg w =
     (if attempt < retry_count cfg
      then (emit (RetrySleep (retry_delay cfg * attempt)) w, Next)
      else (mark_failed cfg env url msg w, Return (False, None)))"

text \<open>
  The body of \<^verbatim>\<open>for attempt in range(1, retry_count + 1)\<close>. With valid HTML and no
  markdown, \<^verbatim>\<open>open(outfile, 'w')\<close> has already emptied the file when the
  concatenation \<^verbatim>\<open>metadata + result.markdown\<close> raises a \<^verbatim>\<open>TypeError\<close>.
\<close>

definition attempt_once ::
  "config \<Rightarrow> env \<Rightarrow> string \<Rightarrow> int \<Rightarrow> world \<Rightarrow> world \<times> (bool \<times> string option) step" where
  "attempt_once cfg env url attempt w =
     (let w1 = emit (Fetch url) w
      in case arun env url (nat attempt) of
           Raises msg \<Rightarrow> on_exception cfg env url attempt msg w1
         | Result html markdown \<Rightarrow>
             if \<not> is_valid_article env html
             then (if attempt < retry_count cfg
                   then (emit (RetrySleep (retry_delay cfg)) w1, Next)
                   else (mark_failed cfg env url ''Invalid article content'' w1,
                         Return (False, None)))
             else (case markdown of
                     None \<Rightarrow>
                       on_exception cfg env url attempt
                         (''can only concatenate str (not '' @ [CHR 0x22] @ ''NoneType''
                            @ [CHR 0x22] @ '') to str'')
                         (emit (OpenTruncate (outfile cfg url))
                            (w1\<lparr>files := write_text (files w1) (outfile cfg url) []\<rparr>))
                   | Some text \<Rightarrow>
                       (mark_tracked cfg url
                          (emit (WriteArtifact (outfile cfg url))
                             (w1\<lparr>files := write_text (files w1) (outfile cfg url)
                                          (metadata env url @ text)\<rparr>)),
                        Return (True, Some html))))"

fun retry_loop ::
  "config \<Rightarrow> env \<Rightarrow> string \<Rightarrow> int list \<Rightarrow> world \<Rightarrow> world \<times> bool \<times> string option" where
  "retry_loop cfg env url [] w = (w, False, None)"
| "retry_loop cfg env url (attempt # rest) w =
     (case attempt_once cfg env url attempt w of
        (w', Next) \<Rightarrow> retry_loop cfg env url rest w'
      | (w', Return r) \<Rightarrow> (w', r))"

text \<open>\<^verbatim>\<open>download_article(crawler, url, config, tracked, failed)\<close>\<close>

definition download_article ::
  "config \<Rightarrow> env \<Rightarrow> string \<Rightarrow> world \<Rightarrow> world \<times> bool \<times> string option" where
  "download_article cfg env url w =
     (if url \<in> tracked w then (w, False, None)
      else if path_exists (files w) (outfile cfg url) then (mark_tracked cfg url w, False, None)
      else retry_loop cfg env url [1..retry_count cfg] (emit RateLimitSleep w))"

section \<open>independent.py: the scheduler\<close>

text \<open>
  \<^verbatim>\<open>await asyncio.gather(*tasks)\<close> starts the coroutines in the order of the tasks.
  Each runs up to its first \<^verbatim>\<open>await\<close>: a worker whose URL is tracked by now returns,
  a worker whose output file exists marks its URL as tracked and returns, every other
  worker goes into the rate-limit sleep with its \<^verbatim>\<open>for\<close> loop over the attempts
  still before it. No worker wakes up before the last one has been started.
\<close>

fun start_workers ::
  "config \<Rightarrow> string list \<Rightarrow> world \<Rightarrow> world \<times> (string \<times> int list) list" where
  "start_workers cfg [] w = (w, [])"
| "start_workers cfg (url # urls) w =
     (if url \<in> tracked w then start_workers cfg urls w
      else if path_exists (files w) (outfile cfg url)
           then start_workers cfg urls (mark_tracked cfg url w)
           else (let (w', suspended) = start_workers cfg urls (emit RateLimitSleep w)
                 in (w', (url, [1..retry_count cfg]) # suspended)))"

text \<open>
  The event loop over the suspended workers, each with the attempts its loop has left.
  The worker chosen by \<open>next_worker\<close> runs from the end of its \<^verbatim>\<open>await\<close> to the
  next one: it makes one attempt (the fetch is recorded when \<^verbatim>\<open>crawler.arun\<close> returns
  or raises) and either returns or goes to sleep before the next attempt; a worker
  whose loop is exhausted returns. Nothing in a worker awaits between the arrival of a
  page and the update of the tracker, so these steps are not interleaved any further.
\<close>

function event_loop ::
  "config \<Rightarrow> env \<Rightarrow> (string \<times> int list) list \<Rightarrow> world \<Rightarrow> world" where
  "event_loop cfg env suspended w =
     (if suspended = [] then w
      else (let i = next_worker env (length (trace w)) (map fst suspended) mod length suspended;
                url = fst (suspended ! i);
                others = take i suspended @ drop (Suc i) suspended
            in case snd (suspended ! i) of
                 [] \<Rightarrow> event_loop cfg env others w
               | attempt # rest \<Rightarrow>
                   (case attempt_once cfg env url attempt w of
                      (w', Next) \<Rightarrow> event_loop cfg env (suspended[i := (url, rest)]) w'
                    | (w', Return r) \<Rightarrow> event_loop cfg env others w')))"
  by pat_completeness auto
termination
proof (relation "measure (\<lambda>(cfg, env, suspended, w).
                    sum_list (map (\<lambda>p. Suc (length (snd p))) suspended))")
  have drop_one: "sum_list (map f (take i xs @ drop (Suc i) xs)) < sum_list (map f xs)"
    if "i < length xs" and "0 < f (xs ! i)" for f :: "(string \<times> int list) \<Rightarrow> nat" and i xs
  proof -
    from that(1) have "xs = take i xs @ xs ! i # drop (Suc i) xs" by (rule id_take_nth_drop)
    then have "sum_list (map f xs)
               = sum_list (map f (take i xs)) + f (xs ! i) + sum_list (map f (drop (Suc i) xs))"
      by (metis append_Cons append_Nil list.simps(9) map_append sum_list.Cons sum_list.append
          add.assoc)
    with that(2) show ?thesis by simp
  qed
  have shorten: "sum_list (map f (xs[i := y])) < sum_list (map f xs)"
    if "i < length xs" and "f y < f (xs ! i)" for f :: "(string \<times> int list) \<Rightarrow> nat" and i xs y
  proof -
    from that(1) have xs: "xs = take i xs @ xs ! i # drop (Suc i) xs" by (rule id_take_nth_drop)
    from that(1) have "xs[i := y] = take i xs @ y # drop (Suc i) xs" by (rule upd_conv_take_nth_drop)
    then have "sum_list (map f (xs[i := y]))
               = sum_list (map f (take i xs)) + f y + sum_list (map f (drop (Suc i) xs))"
      by simp
    moreover have "sum_list (map f xs)
               = sum_list (map f (take i xs)) + f (xs ! i) + sum_list (map f (drop (Suc i) xs))"
      using xs
      by (metis append_Cons append_Nil list.simps(9) map_append sum_list.Cons sum_list.append
          add.assoc)
    ultimately show ?thesis using that(2) by simp
  qed
  show "wf (measure (\<lambda>(cfg, env, suspended, w).
                    sum_list (map (\<lambda>p. Suc (length (snd p))) suspended)))"
    by simp
  fix cfg :: config and env :: env and suspended :: "(string \<times> int list) list" and w :: world
    and i url others
  assume ne: "suspended \<noteq> []"
    and i: "i = next_worker env (length (trace w)) (map fst suspended) mod length suspended"
    and others: "others = take i suspended @ drop (Suc i) suspended"
  from ne i have il: "i < length suspended" by simp
  {
    assume "snd (suspended ! i) = []"
    show "((cfg, env, others, w), cfg, env, suspended, w)
          \<in> measure (\<lambda>(cfg, env, suspended, w).
                    sum_list (map (\<lambda>p. Suc (length (snd p))) suspended))"
      unfolding others using drop_one [OF il, of "\<lambda>p. Suc (length (snd p))"] by simp
  }
  {
    fix attempt rest x w'
    assume a: "snd (suspended ! i) = attempt # rest"
    show "((cfg, env, suspended[i := (url, rest)], w'), cfg, env, suspended, w)
          \<in> measure (\<lambda>(cfg, env, suspended, w).
                    sum_list (map (\<lambda>p. Suc (length (snd p))) suspended))"
      using shorten [OF il, of "\<lambda>p. Suc (length (snd p))" "(url, rest)"] a by simp
    show "((cfg, env, others, w'), cfg, env, suspended, w)
          \<in> measure (\<lambda>(cfg, env, suspended, w).
                    sum_list (map (\<lambda>p. Suc (length (snd p))) suspended))"
      unfolding others using drop_one [OF il, of "\<lambda>p. Suc (length (snd p))"] by simp
  }
qed

declare event_loop.simps [simp del]

definition gather :: "config \<Rightarrow> env \<Rightarrow> string list \<Rightarrow> world \<Rightarrow> world" where
  "gather cfg env tasks w =
     (let (w1, suspended) = start_workers cfg tasks w in event_loop cfg env suspended w1)"

text \<open>
  The loop of \<^verbatim>\<open>process_batch\<close> over the URLs of the batch, with the list of tasks
  created and not yet awaited.
\<close>

fun batch_loop :: "config \<Rightarrow> env \<Rightarrow> string list \<Rightarrow> string list \<Rightarrow> world \<Rightarrow> world" where
  "batch_loop cfg env [] tasks w = (if tasks \<noteq> [] then gather cfg env tasks w else w)"
| "batch_loop cfg env (url # urls) tasks w =
     (if url \<in> tracked w \<or> url \<in> failed w then batch_loop cfg env urls tasks w
      else if concurrent_requests cfg \<le> int (length (tasks @ [url]))
           then batch_loop cfg env urls [] (gather cfg env (tasks @ [url]) w)
           else batch_loop cfg env urls (tasks @ [url]) w)"

definition process_batch :: "config \<Rightarrow> env \<Rightarrow> string list \<Rightarrow> world \<Rightarrow> world \<times> int" where
  "process_batch cfg env urls w =
     (let w' = batch_loop cfg env urls [] w
      in (w', int (length (filter (\<lambda>url. url \<in> tracked w' \<and> url \<notin> failed w') urls))))"

text \<open>\<^verbatim>\<open>range(start, stop, step)\<close> for a step that is not zero.\<close>

definition py_range :: "int \<Rightarrow> int \<Rightarrow> int \<Rightarrow> int list" where
  "py_range start stop step =
     (if 0 < step
      then map (\<lambda>k. start + int k * step) [0..<nat ((stop - start + step - 1) div step)]
      else map (\<lambda>k. start + int k * step) [0..<nat ((start - stop - step - 1) div (- step))])"

text \<open>
  The variables of \<^verbatim>\<open>main\<close> that its loop changes. \<open>count\<close> is
  \<^verbatim>\<open>len(tracked)\<close> as last computed.
\<close>

record main_state =
  st :: world
  candidates :: "string list"
  count :: int
  total_successful :: int

text \<open>
  The loop over the batch that collects the links of the pages downloaded so far, from
  the crawler's cache.
\<close>

fun collect_links :: "env \<Rightarrow> string list \<Rightarrow> world \<Rightarrow> world \<times> string set" where
  "collect_links env [] w = (w, {})"
| "collect_links env (url # urls) w =
     (if url \<in> tracked w \<and> url \<notin> failed w
      then (case arun_cached env url of
              Raises msg \<Rightarrow> collect_links env urls (emit (CacheFetch url) w)
            | Result html markdown \<Rightarrow>
                (let (w', links) = collect_links env urls (emit (CacheFetch url) w)
                 in (w', set (extract_links env html) \<union> links)))
      else collect_links env urls w)"

text \<open>
  One iteration of \<^verbatim>\<open>for i in range(0, len(candidates), batch_size)\<close>, after the
  test of the download cap.
\<close>

definition main_body :: "config \<Rightarrow> env \<Rightarrow> int \<Rightarrow> main_state \<Rightarrow> main_state" where
  "main_body cfg env i s =
     (let batch = take (nat (batch_size cfg)) (drop (nat i) (candidates s));
          (w1, successful) = process_batch cfg env batch (st s);
          (w2, new_links) = collect_links env batch w1;
          (fs3, candidates3) =
            (if new_links \<noteq> {}
             then (let (fs', added) = update_urls_file new_links (urls_file cfg) (files w2)
                   in if 0 < added \<and> int (length (candidates s)) \<le> i + batch_size cfg
                      then (fs', candidates s
                                 @ filter (\<lambda>url. url \<notin> set (candidates s))
                                     (load_candidate_urls fs' (urls_file cfg)))
                      else (fs', candidates s))
             else (files w2, candidates s))
      in \<lparr>st = w2\<lparr>files := fs3, tracked := load_tracked_urls fs3 (track_file cfg)\<rparr>,
          candidates = candidates3,
          count = int (card (tracked w1)),
          total_successful = total_successful s + successful\<rparr>)"

text \<open>The loop of \<^verbatim>\<open>main\<close> over the start indices of the batches, with its \<^verbatim>\<open>break\<close>.\<close>

fun main_loop :: "config \<Rightarrow> env \<Rightarrow> int list \<Rightarrow> main_state \<Rightarrow> main_state" where
  "main_loop cfg env [] s = s"
| "main_loop cfg env (i # rest) s =
     (if max_downloads cfg \<le> count s then s
      else main_loop cfg env rest (main_body cfg env i s))"

text \<open>
  \<^verbatim>\<open>setup_environment\<close>: the three files are created when they do not exist, and
  an empty URLs file receives the seed URL.
\<close>

definition touch :: "string \<Rightarrow> store \<Rightarrow> store" where
  "touch path fs = (if path_exists fs path then fs else fs(path := Text []))"

definition setup_environment :: "config \<Rightarrow> store \<Rightarrow> store" where
  "setup_environment cfg fs0 =
     (let fs1 = touch (error_file cfg) (touch (urls_file cfg) (touch (track_file cfg) fs0))
      in if fs1 (urls_file cfg) = Text []
         then write_text fs1 (urls_file cfg) (seed_url cfg @ [LF])
         else fs1)"

text \<open>
  \<^verbatim>\<open>main\<close>, from the loading of the three files on. A batch size of zero makes
  \<^verbatim>\<open>range\<close> raise a \<^verbatim>\<open>ValueError\<close>.
\<close>

definition main :: "config \<Rightarrow> bool \<Rightarrow> env \<Rightarrow> store \<Rightarrow> exn + main_state" where
  "main cfg reset_errors env fs0 =
     (let fs1 = setup_environment cfg fs0;
          tracked0 = load_tracked_urls fs1 (track_file cfg);
          failed0 = (if reset_errors then {} else load_tracked_urls fs1 (error_file cfg));
          candidates0 = load_candidate_urls fs1 (urls_file cfg)
      in if batch_size cfg = 0 then Inl ValueError
         else Inr (main_loop cfg env
                     (py_range 0 (int (length candidates0)) (batch_size cfg))
                     \<lparr>st = \<lparr>files = fs1, tracked = tracked0, failed = failed0, trace = []\<rparr>,
                      candidates = candidates0,
                      count = int (card tracked0),
                      total_successful = 0\<rparr>))"

section \<open>rekhta-data.py: tracker file\<close>

text \<open>
  \<^verbatim>\<open>load_tracked_urls()\<close> of \<^verbatim>\<open>rekhta-data.py\<close>: the same comprehension, with
  one handler for a missing file and one for every other exception; both return the
  empty set.
\<close>

definition rekhta_load_tracked_urls :: "store \<Rightarrow> string \<Rightarrow> string set" where
  "rekhta_load_tracked_urls fs track_file_name =
     (case read_text fs track_file_name of
        Inl FileNotFoundError \<Rightarrow> {}
      | Inl e \<Rightarrow> {}
      | Inr txt \<Rightarrow> set (map strip (filter (\<lambda>line. strip line \<noteq> []) (file_lines txt))))"

section \<open>rekhta-data.py: the worker\<close>

record rekhta_config =
  rk_download_dir :: string
  rk_track_file :: string
  rk_retry_attempts :: int

text \<open>
  The body of \<^verbatim>\<open>for attempt in range(CONFIG["retry_attempts"])\<close>. A result without
  markdown (\<^verbatim>\<open>None\<close> or the empty string) ends the worker at once; an exception is
  followed by a sleep of \<^verbatim>\<open>2 ** attempt\<close> seconds, or ends the worker after the last
  attempt.
\<close>

definition rekhta_attempt ::
  "rekhta_config \<Rightarrow> env \<Rightarrow> string \<Rightarrow> int \<Rightarrow> world \<Rightarrow> world \<times> bool step" where
  "rekhta_attempt cfg env url attempt w =
     (let w1 = emit (Fetch url) w
      in case arun env url (nat attempt + 1) of
           Raises msg \<Rightarrow>
             if attempt < rk_retry_attempts cfg - 1
             then (emit (RetrySleep (2 ^ nat attempt)) w1, Next)
             else (w1, Return False)
         | Result html markdown \<Rightarrow>
             (case markdown of
                None \<Rightarrow> (w1, Return False)
              | Some text \<Rightarrow>
                  if text = [] then (w1, Return False)
                  else (let name = takeWhile (\<lambda>c. c \<noteq> CHR ''?'') (last_segment url);
                            path = path_join (rk_download_dir cfg) (name @ ''.md'');
                            w2 = emit (WriteArtifact path)
                                   (w1\<lparr>files := write_text (files w1) path text\<rparr>)
                        in (emit (TrackAppend url)
                              (w2\<lparr>files := append_text (files w2) (rk_track_file cfg) (url @ [LF]),
                                  tracked := insert url (tracked w2)\<rparr>),
                            Return True))))"

text \<open>The loop; falling out of it returns \<^verbatim>\<open>None\<close>.\<close>

fun rekhta_retry_loop ::
  "rekhta_config \<Rightarrow> env \<Rightarrow> string \<Rightarrow> int list \<Rightarrow> world \<Rightarrow> world \<times> bool option" where
  "rekhta_retry_loop cfg env url [] w = (w, None)"
| "rekhta_retry_loop cfg env url (attempt # rest) w =
     (case rekhta_attempt cfg env url attempt w of
        (w', Next) \<Rightarrow> rekhta_retry_loop cfg env url rest w'
      | (w', Return r) \<Rightarrow> (w', Some r))"

definition rekhta_download_article ::
  "rekhta_config \<Rightarrow> env \<Rightarrow> string \<Rightarrow> world \<Rightarrow> world \<times> bool option" where
  "rekhta_download_article cfg env url w =
     rekhta_retry_loop cfg env url [0..rk_retry_attempts cfg - 1] w"

section \<open>nature-articles.py: the worker\<close>

text \<open>\<^verbatim>\<open>urlparse(url).path.strip("/").replace("/", "_")\<close>\<close>

definition nature_slug :: "env \<Rightarrow> string \<Rightarrow> string" where
  "nature_slug env url =
     map (\<lambda>c. if c = CHR ''/'' then CHR ''_'' else c)
       (rev (dropWhile (\<lambda>c. c = CHR ''/'')
          (rev (dropWhile (\<lambda>c. c = CHR ''/'') (url_path env url)))))"

text \<open>
  \<^verbatim>\<open>download_article(sem, crawler, url, tracked, total_downloaded)\<close>: one attempt.
  The file is written when the result has markdown; the URL is tracked whenever the
  fetch returns. \<open>downloaded\<close> is the length of the list \<^verbatim>\<open>total_downloaded\<close>.
\<close>

definition nature_download_article ::
  "string \<Rightarrow> string \<Rightarrow> env \<Rightarrow> string \<Rightarrow> world \<Rightarrow> nat \<Rightarrow> world \<times> nat" where
  "nature_download_article dir track env url w downloaded =
     (let w1 = emit (Fetch url) w
      in case arun env url 1 of
           Raises msg \<Rightarrow> (w1, downloaded)
         | Result html markdown \<Rightarrow>
             (let filepath = path_join dir (nature_slug env url @ ''.md'');
                  w2 = (case markdown of
                          None \<Rightarrow> w1
                        | Some text \<Rightarrow>
                            emit (WriteArtifact filepath)
                              (w1\<lparr>files := write_text (files w1) filepath text\<rparr>))
              in (emit (TrackAppend url)
                    (w2\<lparr>files := append_text (files w2) track (url @ [LF]),
                        tracked := insert url (tracked w2)\<rparr>),
                  downloaded + 1)))"

section \<open>wiki-how.py: the crawl loop\<close>

record wikihow_config =
  wh_download_dir :: string
  wh_track_file :: string
  wh_max_downloads :: int
  wh_batch_size :: nat

record wikihow_state =
  wh :: world
  queue :: "string list"
  seen :: "string set"
  total_downloaded :: int

text \<open>
  \<^verbatim>\<open>while queue and len(batch) < BATCH_SIZE\<close>: URLs are popped from the front of the
  queue; those not yet tracked go to the batch.
\<close>

fun build_batch ::
  "nat \<Rightarrow> string set \<Rightarrow> string list \<Rightarrow> string list \<Rightarrow> string list \<times> string list" where
  "build_batch n already [] batch = ([], batch)"
| "build_batch n already (url # rest) batch =
     (if length batch < n
      then (if url \<notin> already then build_batch n already rest (batch @ [url])
            else build_batch n already rest batch)
      else (url # rest, batch))"

text \<open>
  \<^verbatim>\<open>for url in batch\<close> with its \<^verbatim>\<open>break\<close> at the download cap. Writing
  \<^verbatim>\<open>None\<close> raises after the file was opened.
\<close>

fun wikihow_downloads ::
  "wikihow_config \<Rightarrow> env \<Rightarrow> string list \<Rightarrow> world \<Rightarrow> int \<Rightarrow> world \<times> int" where
  "wikihow_downloads cfg env [] w downloaded = (w, downloaded)"
| "wikihow_downloads cfg env (url # rest) w downloaded =
     (if wh_max_downloads cfg \<le> downloaded then (w, downloaded)
      else (let w1 = emit (Fetch url) w;
                filepath = path_join (wh_download_dir cfg) (last_segment url @ ''.md'')
            in case arun env url 1 of
                 Raises msg \<Rightarrow> wikihow_downloads cfg env rest w1 downloaded
               | Result html None \<Rightarrow>
                   wikihow_downloads cfg env rest
                     (emit (OpenTruncate filepath)
                        (w1\<lparr>files := write_text (files w1) filepath []\<rparr>))
                     downloaded
               | Result html (Some text) \<Rightarrow>
                   (let w2 = emit (WriteArtifact filepath)
                               (w1\<lparr>files := write_text (files w1) filepath text\<rparr>)
                    in wikihow_downloads cfg env rest
                         (emit (TrackAppend url)
                            (w2\<lparr>tracked := insert url (tracked w2),
                                files := append_text (files w2) (wh_track_file cfg) (url @ [LF])\<rparr>))
                         (downloaded + 1))))"

text \<open>
  The discovery loop: \<^verbatim>\<open>new_links.update(discovered - tracked - seen)\<close> for every URL
  of the batch.
\<close>

fun discover_links :: "env \<Rightarrow> string list \<Rightarrow> wikihow_state \<Rightarrow> world \<times> string set" where
  "discover_links env [] s = (wh s, {})"
| "discover_links env (url # rest) s =
     (let (w', new_links) = discover_links env rest (s\<lparr>wh := emit (LinkFetch url) (wh s)\<rparr>)
      in (w', (set (page_links env url) - tracked (wh s) - seen s) \<union> new_links))"

text \<open>
  One iteration of \<^verbatim>\<open>while queue and total_downloaded < MAX_DOWNLOADS\<close>: the batch
  is built, downloaded, and the new links are put at the end of the queue in sorted
  order.
\<close>

definition crawl_step :: "wikihow_config \<Rightarrow> env \<Rightarrow> wikihow_state \<Rightarrow> wikihow_state" where
  "crawl_step cfg env s =
     (let (queue1, batch) = build_batch (wh_batch_size cfg) (tracked (wh s)) (queue s) [];
          (w1, total1) = wikihow_downloads cfg env batch (wh s) (total_downloaded s);
          s1 = s\<lparr>wh := w1, queue := queue1, total_downloaded := total1\<rparr>;
          (w2, new_links) = discover_links env batch s1
      in s1\<lparr>wh := w2,
            queue := queue1 @ sorted_list_of_set new_links,
            seen := seen s1 \<union> new_links\<rparr>)"

text \<open>The loop may run for ever; \<open>None\<close> is a run that does not return.\<close>

partial_function (option) crawl_loop ::
  "wikihow_config \<Rightarrow> env \<Rightarrow> wikihow_state \<Rightarrow> wikihow_state option" where
  "crawl_loop cfg env s =
     (if queue s \<noteq> [] \<and> total_downloaded s < wh_max_downloads cfg
      then crawl_loop cfg env (crawl_step cfg env s)
      else Some s)"

text \<open>
  \<^verbatim>\<open>crawl_articles(seed_url)\<close>. The tracker file is created when absent; its loader
  has no handler and keeps the empty string of a blank line.
\<close>

definition crawl_articles ::
  "wikihow_config \<Rightarrow> env \<Rightarrow> string \<Rightarrow> store \<Rightarrow> (exn + wikihow_state) option" where
  "crawl_articles cfg env seed fs0 =
     (let fs1 = touch (wh_track_file cfg) fs0
      in case read_text fs1 (wh_track_file cfg) of
           Inl e \<Rightarrow> Some (Inl e)
         | Inr txt \<Rightarrow>
             map_option Inr
               (crawl_loop cfg env
                  \<lparr>wh = \<lparr>files = fs1, tracked = set (map strip (file_lines txt)),
                          failed = {}, trace = []\<rparr>,
                   queue = [seed], seen = {seed},
                   total_downloaded = int (card (set (map strip (file_lines txt))))\<rparr>))"

section \<open>bbc-articles.py: the progress file\<close>

text \<open>
  A JSON value as \<^verbatim>\<open>json.load\<close> returns it. An object is an association list in
  insertion order, without repeated keys. A floating-point number is kept as its text;
  arithmetic on it is left to the parameters.
\<close>

datatype json =
    JNull
  | JBool bool
  | JInt int
  | JReal string
  | JStr string
  | JList "json list"
  | JObj "(string \<times> json) list"

text \<open>
  The progress file: missing; not UTF-8; text that is not JSON; JSON text that
  \<^verbatim>\<open>json.load\<close> refuses with a plain \<^verbatim>\<open>ValueError\<close> (an integer literal beyond the
  digit limit of the interpreter) or with a \<^verbatim>\<open>RecursionError\<close> (nesting too deep); or
  the text of a JSON document that it returns.
\<close>

datatype progress_file = Missing | Undecodable | Unparseable | TooManyDigits | TooDeep | Doc json

text \<open>
  The parameters of the mass scraper. \<open>clock n\<close> is the ISO text of the \<open>n\<close>-th
  reading of the time. \<open>float_add\<close>, \<open>float_positive\<close> and \<open>percent_text\<close> are
  addition with a float operand, the test \<^verbatim>\<open>> 0\<close> of a float, and the text
  \<^verbatim>\<open>f"{(c / t) * 100:.2f}%"\<close>; \<open>None\<close> is the \<^verbatim>\<open>OverflowError\<close> of an integer too
  large for a float. \<open>seconds_between ended started\<close> is
  \<^verbatim>\<open>(fromisoformat(ended) - fromisoformat(started)).total_seconds()\<close>, or the exception
  that it raises (a \<^verbatim>\<open>ValueError\<close> for a text that is no ISO time, a
  \<^verbatim>\<open>TypeError\<close> for times of which only one has an offset). \<open>saved_urls\<close> is the
  URL file of the run: absent, a file on which \<^verbatim>\<open>json.load\<close> raises, or the strings
  of the list it holds (the empty list also stands for a document that is no list);
  \<open>explored_urls\<close> is the sorted list that the exploration of the site finds.
  \<open>run_dir_exists\<close> says that the directory of the run is already there when the
  constructor wants to create it.
\<close>

record bbc_env =
  clock :: "nat \<Rightarrow> string"
  float_add :: "json \<Rightarrow> json \<Rightarrow> json option"
  float_positive :: "json \<Rightarrow> bool"
  percent_text :: "json \<Rightarrow> json \<Rightarrow> string option"
  seconds_between :: "string \<Rightarrow> string \<Rightarrow> exn + json"
  saved_urls :: "(exn + string list) option"
  explored_urls :: "string list"
  run_dir_exists :: bool

text \<open>
  What \<^verbatim>\<open>logger.error\<close> is called with: a message about an exception that a handler
  has caught, or a plain message.
\<close>

datatype log_entry = Caught exn | Plain string

text \<open>
  The state of a \<^verbatim>\<open>BBCUrduMassScraper\<close>: its progress file, the number of readings
  of the clock, the calls of \<^verbatim>\<open>logger.error\<close>, and the statuses with which
  \<open>finalize_progress\<close> was called.
\<close>

record scraper =
  progress :: progress_file
  ticks :: nat
  logged :: "log_entry list"
  finalized :: "string list"

text \<open>Sequencing of computations that may raise.\<close>

definition and_then :: "exn + 'a \<Rightarrow> ('a \<Rightarrow> exn + 'b) \<Rightarrow> exn + 'b" where
  "and_then r f = (case r of Inl e \<Rightarrow> Inl e | Inr x \<Rightarrow> f x)"

text \<open>\<^verbatim>\<open>d[key]\<close> and \<^verbatim>\<open>d[key] = value\<close>; only a \<^verbatim>\<open>dict\<close> accepts a string key.\<close>

definition dict_get :: "json \<Rightarrow> string \<Rightarrow> exn + json" where
  "dict_get d key =
     (case d of
        JObj kvs \<Rightarrow> (case map_of kvs key of None \<Rightarrow> Inl (KeyError key) | Some v \<Rightarrow> Inr v)
      | _ \<Rightarrow> Inl TypeError)"

definition dict_set :: "json \<Rightarrow> string \<Rightarrow> json \<Rightarrow> exn + json" where
  "dict_set d key v =
     (case d of
        JObj kvs \<Rightarrow> Inr (JObj (AList.update key v kvs))
      | _ \<Rightarrow> Inl TypeError)"

text \<open>
  \<^verbatim>\<open>a + b\<close> on counters. Integers and booleans add as integers, a float makes the sum
  a float. Every other pair either raises a \<^verbatim>\<open>TypeError\<close> at once or gives a string
  or a list on which the next operation of the two functions below raises one; in both
  cases the handler is reached before anything is written.
\<close>

definition as_int :: "json \<Rightarrow> int option" where
  "as_int v = (case v of JInt n \<Rightarrow> Some n | JBool b \<Rightarrow> Some (if b then 1 else 0) | _ \<Rightarrow> None)"

definition is_number :: "json \<Rightarrow> bool" where
  "is_number v = (case v of JInt n \<Rightarrow> True | JBool b \<Rightarrow> True | JReal x \<Rightarrow> True | _ \<Rightarrow> False)"

definition py_add :: "bbc_env \<Rightarrow> json \<Rightarrow> json \<Rightarrow> exn + json" where
  "py_add env a b =
     (case (as_int a, as_int b) of
        (Some x, Some y) \<Rightarrow> Inr (JInt (x + y))
      | _ \<Rightarrow> if is_number a \<and> is_number b
             then (case float_add env a b of None \<Rightarrow> Inl OverflowError | Some v \<Rightarrow> Inr v)
             else Inl TypeError)"

definition py_positive :: "bbc_env \<Rightarrow> json \<Rightarrow> bool" where
  "py_positive env v = (case as_int v of Some n \<Rightarrow> 0 < n | None \<Rightarrow> float_positive env v)"

text \<open>
  \<^verbatim>\<open>initialize_progress_file\<close>. The dump of the default record cannot fail, so the
  fallback that writes \<^verbatim>\<open>{}\<close> is never taken.
\<close>

definition initialize_progress_file :: "bbc_env \<Rightarrow> scraper \<Rightarrow> scraper" where
  "initialize_progress_file env s =
     s\<lparr>progress := Doc (JObj
          [(''started_at'', JStr (clock env (ticks s))),
           (''total_articles'', JInt 0),
           (''completed_articles'', JInt 0),
           (''failed_articles'', JInt 0),
           (''completed_urls'', JList []),
           (''failed_urls'', JList []),
           (''status'', JStr ''running''),
           (''last_updated'', JStr (clock env (ticks s + 1)))]),
       ticks := ticks s + 2\<rparr>"

text \<open>\<^verbatim>\<open>with open(self.progress_file, 'r') as f: progress = json.load(f)\<close>\<close>

definition read_progress :: "scraper \<Rightarrow> exn + json" where
  "read_progress s =
     (case progress s of
        Missing \<Rightarrow> Inl FileNotFoundError
      | Undecodable \<Rightarrow> Inl UnicodeDecodeError
      | Unparseable \<Rightarrow> Inl JSONDecodeError
      | TooManyDigits \<Rightarrow> Inl ValueError
      | TooDeep \<Rightarrow> Inl RecursionError
      | Doc d \<Rightarrow> Inr d)"

text \<open>
  The inner \<^verbatim>\<open>try\<close> of \<open>update_progress\<close> and \<open>finalize_progress\<close>: a
  \<^verbatim>\<open>JSONDecodeError\<close> or a \<^verbatim>\<open>FileNotFoundError\<close> resets the file, which is then
  read again; any other exception is left to the outer handler.
\<close>

definition load_progress :: "bbc_env \<Rightarrow> scraper \<Rightarrow> (exn + json) \<times> scraper" where
  "load_progress env s =
     (case read_progress s of
        Inl JSONDecodeError \<Rightarrow>
          (read_progress (initialize_progress_file env s), initialize_progress_file env s)
      | Inl FileNotFoundError \<Rightarrow>
          (read_progress (initialize_progress_file env s), initialize_progress_file env s)
      | r \<Rightarrow> (r, s))"

text \<open>
  \<^verbatim>\<open>progress[counter] += 1; progress[urls].append(url)\<close>, done when the URL argument
  is given and not empty.
\<close>

definition record_url :: "bbc_env \<Rightarrow> string \<Rightarrow> string \<Rightarrow> string option \<Rightarrow> json \<Rightarrow> exn + json" where
  "record_url env counter urls url d =
     (case url of
        None \<Rightarrow> Inr d
      | Some u \<Rightarrow>
          if u = [] then Inr d
          else and_then (dict_get d counter) (\<lambda>c.
               and_then (py_add env c (JInt 1)) (\<lambda>c'.
               and_then (dict_set d counter c') (\<lambda>d1.
               and_then (dict_get d1 urls) (\<lambda>l.
                 case l of
                   JList xs \<Rightarrow> dict_set d1 urls (JList (xs @ [JStr u]))
                 | _ \<Rightarrow> Inl AttributeError)))))"

text \<open>
  \<^verbatim>\<open>update_progress(completed_url, failed_url)\<close>. Every exception of the body is
  logged; nothing is written then. The clock is read for \<^verbatim>\<open>last_updated\<close> once the
  URLs are recorded, before the assignment that a document which is no object refuses.
\<close>

definition update_progress ::
  "bbc_env \<Rightarrow> string option \<Rightarrow> string option \<Rightarrow> scraper \<Rightarrow> scraper" where
  "update_progress env completed_url failed_url s =
     (case load_progress env s of
        (Inl e, s1) \<Rightarrow> s1\<lparr>logged := logged s1 @ [Caught e]\<rparr>
      | (Inr d, s1) \<Rightarrow>
          (case and_then (record_url env ''completed_articles'' ''completed_urls'' completed_url d)
                  (record_url env ''failed_articles'' ''failed_urls'' failed_url) of
             Inl e \<Rightarrow> s1\<lparr>logged := logged s1 @ [Caught e]\<rparr>
           | Inr d2 \<Rightarrow>
               (case dict_set d2 ''last_updated'' (JStr (clock env (ticks s1))) of
                  Inl e \<Rightarrow> s1\<lparr>logged := logged s1 @ [Caught e], ticks := ticks s1 + 1\<rparr>
                | Inr d3 \<Rightarrow> s1\<lparr>progress := Doc d3, ticks := ticks s1 + 1\<rparr>)))"

text \<open>
  The dictionary \<^verbatim>\<open>progress["statistics"]\<close> that \<open>finalize_progress\<close> computes: the
  sum of the two counters, the success rate (a division, when the sum is positive), and
  the runtime from the two times of the record.
\<close>

definition statistics :: "bbc_env \<Rightarrow> json \<Rightarrow> exn + json" where
  "statistics env d =
     and_then (dict_get d ''completed_articles'') (\<lambda>c.
     and_then (dict_get d ''failed_articles'') (\<lambda>f.
     and_then (py_add env c f) (\<lambda>total_processed.
     and_then (if py_positive env total_processed
               then (case percent_text env c total_processed of
                       None \<Rightarrow> Inl OverflowError
                     | Some rate \<Rightarrow> Inr rate)
               else Inr ''0.00%'') (\<lambda>success_rate.
     and_then (dict_get d ''ended_at'') (\<lambda>ended.
     and_then (dict_get d ''started_at'') (\<lambda>started.
       case (ended, started) of
         (JStr e, JStr b) \<Rightarrow>
           and_then (seconds_between env e b) (\<lambda>secs.
             Inr (JObj [(''success_rate'', JStr success_rate),
                        (''total_processed'', total_processed),
                        (''runtime_seconds'', secs)]))
       | _ \<Rightarrow> Inl TypeError))))))"

text \<open>
  \<^verbatim>\<open>finalize_progress(status)\<close>. The clock is read before \<^verbatim>\<open>ended_at\<close> is
  assigned, and a second time for \<^verbatim>\<open>last_updated\<close>; an exception after that leaves
  the file as it was.
\<close>

definition finalize_progress :: "bbc_env \<Rightarrow> string \<Rightarrow> scraper \<Rightarrow> scraper" where
  "finalize_progress env status s =
     (case load_progress env (s\<lparr>finalized := finalized s @ [status]\<rparr>) of
        (Inl e, s1) \<Rightarrow> s1\<lparr>logged := logged s1 @ [Caught e]\<rparr>
      | (Inr d, s1) \<Rightarrow>
          (case dict_set d ''ended_at'' (JStr (clock env (ticks s1))) of
             Inl e \<Rightarrow> s1\<lparr>logged := logged s1 @ [Caught e], ticks := ticks s1 + 1\<rparr>
           | Inr d1 \<Rightarrow>
               (case and_then (dict_set d1 ''status'' (JStr status)) (\<lambda>d2.
                     and_then (dict_set d2 ''last_updated'' (JStr (clock env (ticks s1 + 1)))) (\<lambda>d3.
                     and_then (statistics env d3) (\<lambda>stats.
                     dict_set d3 ''statistics'' stats))) of
                  Inl e \<Rightarrow> s1\<lparr>logged := logged s1 @ [Caught e], ticks := ticks s1 + 2\<rparr>
                | Inr d4 \<Rightarrow> s1\<lparr>progress := Doc d4, ticks := ticks s1 + 2\<rparr>)))"

section \<open>bbc-articles.py: the constructor, the run and the entry point\<close>

text \<open>
  \<^verbatim>\<open>BBCUrduMassScraper.__init__\<close>, from the time stamp of the run on. The directory
  of the run is created (\<^verbatim>\<open>os.makedirs\<close> refuses one that exists), the progress file
  is initialised, and the last statement asks the module \<^verbatim>\<open>concurrent.futures\<close> for
  an attribute \<^verbatim>\<open>threading\<close> that it does not have: the constructor always raises.
  The result is the exception and the state of the run directory it leaves.
\<close>

definition construct :: "bbc_env \<Rightarrow> scraper \<Rightarrow> exn option \<times> scraper" where
  "construct env s =
     (if run_dir_exists env then (Some FileExistsError, s\<lparr>ticks := ticks s + 1\<rparr>)
      else (Some AttributeError, initialize_progress_file env (s\<lparr>ticks := ticks s + 1\<rparr>)))"

text \<open>
  \<^verbatim>\<open>get_article_urls(target_count)\<close>: the saved list when there is one that is not
  empty, else the explored list, whose size is written to the progress file (without
  reset of a file that cannot be read). The handlers log their exceptions, and an
  exploration that finds nothing is logged as an error.
\<close>

definition get_article_urls :: "bbc_env \<Rightarrow> nat \<Rightarrow> scraper \<Rightarrow> string list \<times> scraper" where
  "get_article_urls env target_count s =
     (case (case saved_urls env of
              None \<Rightarrow> (None, s)
            | Some (Inl e) \<Rightarrow> (None, s\<lparr>logged := logged s @ [Caught e]\<rparr>)
            | Some (Inr urls) \<Rightarrow> (if urls = [] then (None, s) else (Some urls, s))) of
        (Some urls, s1) \<Rightarrow> (take target_count urls, s1)
      | (None, s1) \<Rightarrow>
          if explored_urls env = []
          then ([], s1\<lparr>logged := logged s1 @ [Plain ''Failed to collect any article URLs'']\<rparr>)
          else (take target_count (explored_urls env),
                (case and_then (read_progress s1) (\<lambda>d.
                        dict_set d ''total_articles''
                          (JInt (int (min (length (explored_urls env)) target_count)))) of
                   Inl e \<Rightarrow> s1\<lparr>logged := logged s1 @ [Caught e]\<rparr>
                 | Inr d1 \<Rightarrow> s1\<lparr>progress := Doc d1\<rparr>)))"

text \<open>
  The URLs that the progress file records as processed, for a run that resumes:
  \<^verbatim>\<open>set(progress.get("completed_urls", [])).union(set(progress.get("failed_urls", [])))\<close>.
  \<open>members v\<close> are the strings in \<^verbatim>\<open>set(v)\<close>, or \<open>None\<close> when \<^verbatim>\<open>set(v)\<close>
  raises its \<^verbatim>\<open>TypeError\<close> (a value that cannot be iterated, an element that cannot
  be hashed). A document that is no object has no method \<^verbatim>\<open>get\<close>.
\<close>

definition members :: "json \<Rightarrow> string list option" where
  "members v =
     (case v of
        JList xs \<Rightarrow>
          if list_ex (\<lambda>x. case x of JList ys \<Rightarrow> True | JObj kvs \<Rightarrow> True | _ \<Rightarrow> False) xs
          then None
          else Some (concat (map (\<lambda>x. case x of JStr u \<Rightarrow> [u] | _ \<Rightarrow> []) xs))
      | JStr u \<Rightarrow> Some (map (\<lambda>c. [c]) u)
      | JObj kvs \<Rightarrow> Some (map fst kvs)
      | _ \<Rightarrow> None)"

definition processed_urls :: "scraper \<Rightarrow> exn + string set" where
  "processed_urls s =
     and_then (read_progress s) (\<lambda>d.
       case d of
         JObj kvs \<Rightarrow>
           (case members (case map_of kvs ''completed_urls'' of None \<Rightarrow> JList [] | Some v \<Rightarrow> v) of
              None \<Rightarrow> Inl TypeError
            | Some cs \<Rightarrow>
                (case members (case map_of kvs ''failed_urls'' of None \<Rightarrow> JList [] | Some v \<Rightarrow> v) of
                   None \<Rightarrow> Inl TypeError
                 | Some fs \<Rightarrow> Inr (set cs \<union> set fs)))
       | _ \<Rightarrow> Inl AttributeError)"

text \<open>
  \<^verbatim>\<open>[article_urls[i:i + batch_size] for i in range(0, len(article_urls), batch_size)]\<close>
  for a positive batch size.
\<close>

fun chunks :: "nat \<Rightarrow> nat \<Rightarrow> string list \<Rightarrow> string list list" where
  "chunks 0 n urls = []"
| "chunks (Suc k) n urls = (if urls = [] then [] else take n urls # chunks k n (drop n urls))"

definition batches_of :: "int \<Rightarrow> string list \<Rightarrow> string list list" where
  "batches_of n urls = (if 0 < n then chunks (length urls) (nat n) urls else [])"

text \<open>
  The loop of \<open>run_scraper\<close> over the numbered batches, inside its \<^verbatim>\<open>try\<close>; the
  result is the exception that leaves the block. In the file \<open>run_batch\<close>,
  \<open>run_scraper\<close> and \<open>create_summary_report\<close> stand at module level, after the end of
  the class, although they take \<^verbatim>\<open>self\<close>. A scraper therefore has no attribute
  \<^verbatim>\<open>run_batch\<close>: the first iteration raises an \<^verbatim>\<open>AttributeError\<close> when it looks the
  method up, before anything of the batch is processed. The block therefore never
  waits, neither for a batch nor in the sleep between two batches, and the embedding has
  no interrupt that arrives while it runs.
\<close>

fun batches_loop :: "string list list \<Rightarrow> exn option" where
  "batches_loop [] = None"
| "batches_loop (urls_batch # rest) = Some AttributeError"

text \<open>
  The function \<^verbatim>\<open>run_scraper(self, target_count, resume)\<close> of the module, applied to
  a scraper with the given batch size. A batch size of zero makes \<^verbatim>\<open>range\<close> raise
  before the \<^verbatim>\<open>try\<close>; a negative one gives no batch. The handlers finalize the
  progress file with the status \<open>interrupted\<close> or, after logging the exception,
  \<open>error\<close>; a run that ends normally finalizes it with \<open>completed\<close>, a run without
  URLs with \<open>failed\<close>. A resuming run leaves out the URLs that the progress file
  records; when these cannot be read the exception is logged and all URLs stay.
\<close>

definition run_scraper ::
  "bbc_env \<Rightarrow> int \<Rightarrow> nat \<Rightarrow> bool \<Rightarrow> scraper \<Rightarrow> (exn + nat \<times> nat) \<times> scraper" where
  "run_scraper env batch_size_arg target_count resume s =
     (let (found, s1) = get_article_urls env target_count s
      in if found = []
         then (Inr (0, 0),
               finalize_progress env ''failed''
                 (s1\<lparr>logged := logged s1 @ [Plain ''No article URLs found, aborting'']\<rparr>))
         else (let (article_urls, s2) =
                     (if resume
                      then (case processed_urls s1 of
                              Inl e \<Rightarrow> (found, s1\<lparr>logged := logged s1 @ [Caught e]\<rparr>)
                            | Inr already \<Rightarrow> (filter (\<lambda>url. url \<notin> already) found, s1))
                      else (found, s1))
               in if batch_size_arg = 0 then (Inl ValueError, s2)
                  else (case batches_loop (batches_of batch_size_arg article_urls) of
                          Some KeyboardInterrupt \<Rightarrow>
                            (Inr (0, 0), finalize_progress env ''interrupted'' s2)
                        | Some e \<Rightarrow>
                            (Inr (0, 0),
                             finalize_progress env ''error''
                               (s2\<lparr>logged := logged s2 @ [Caught e]\<rparr>))
                        | None \<Rightarrow>
                            (Inr (0, 0), finalize_progress env ''completed'' s2))))"

text \<open>
  The arguments of the command line, after \<^verbatim>\<open>argparse\<close>; the two delays are floats,
  of which only the validity of the range matters.
\<close>

record arguments =
  arg_count :: int
  arg_workers :: int
  arg_batch_size :: int
  arg_resume :: bool
  arg_delay_range_valid :: bool

text \<open>
  \<^verbatim>\<open>main()\<close>: the exit code it returns, or the exception that leaves it. The
  scraper is constructed outside the \<^verbatim>\<open>try\<close>. Were it constructed,
  \<^verbatim>\<open>scraper.run_scraper\<close> would raise an \<^verbatim>\<open>AttributeError\<close> (the class has no such
  method), which the last handler of \<open>main\<close> turns into the exit code 1.
\<close>

definition bbc_main :: "bbc_env \<Rightarrow> arguments \<Rightarrow> scraper \<Rightarrow> (exn + int) \<times> scraper" where
  "bbc_main env args s =
     (if arg_count args < 1 \<or> arg_workers args < 1 \<or> arg_batch_size args < 1
         \<or> \<not> arg_delay_range_valid args
      then (Inr 1, s)
      else (case construct env s of
              (Some e, s1) \<Rightarrow> (Inl e, s1)
            | (None, s1) \<Rightarrow> (Inr 1, s1)))"

section \<open>Counting the effects of a run\<close>

definition fetches_of :: "string \<Rightarrow> world \<Rightarrow> nat" where
  "fetches_of url w = count_list (trace w) (Fetch url)"

definition writes_of :: "string \<Rightarrow> world \<Rightarrow> nat" where
  "writes_of path w = count_list (trace w) (WriteArtifact path)"

definition track_appends_of :: "string \<Rightarrow> world \<Rightarrow> nat" where
  "track_appends_of url w = count_list (trace w) (TrackAppend url)"

definition fail_appends_of :: "string \<Rightarrow> world \<Rightarrow> nat" where
  "fail_appends_of url w = count_list (trace w) (FailAppend url)"

text \<open>The lengths of the sleeps between attempts, and the URLs fetched, in order.\<close>

definition retry_sleeps :: "event list \<Rightarrow> int list" where
  "retry_sleeps tr = concat (map (\<lambda>e. case e of RetrySleep d \<Rightarrow> [d] | _ \<Rightarrow> []) tr)"

definition fetched :: "event list \<Rightarrow> string list" where
  "fetched tr = concat (map (\<lambda>e. case e of Fetch url \<Rightarrow> [url] | _ \<Rightarrow> []) tr)"

text \<open>A world with the given files, empty sets and an empty trace.\<close>

definition fresh_world :: "store \<Rightarrow> world" where
  "fresh_world fs = \<lparr>files = fs, tracked = {}, failed = {}, trace = []\<rparr>"

section \<open>Notions used to state the properties of the files\<close>

text \<open>The stripped non-blank lines of a text, in file order.\<close>

definition nonblank_lines :: "string \<Rightarrow> string list" where
  "nonblank_lines txt = filter (\<lambda>u. u \<noteq> []) (map strip (file_lines txt))"

text \<open>
  The elements of a list at the positions where they occur for the first time, in the
  order of the list.
\<close>

definition first_occurrences :: "'a list \<Rightarrow> 'a list" where
  "first_occurrences xs =
     map ((!) xs) (filter (\<lambda>i. xs ! i \<notin> set (take i xs)) [0..<length xs])"

text \<open>
  A string that can stand on a line of its own and come back unchanged: not empty, no
  whitespace at either end, no line break inside. Every URL the scripts pass to the
  tracker is of this kind, since it was read from a line of the candidate file.
\<close>

definition clean_url :: "string \<Rightarrow> bool" where
  "clean_url u =
     (u \<noteq> [] \<and> \<not> is_space (hd u) \<and> \<not> is_space (last u) \<and> LF \<notin> set u \<and> CR \<notin> set u)"

text \<open>The text of a log that holds the given URLs, one per line.\<close>

definition log_of :: "string list \<Rightarrow> string" where
  "log_of urls = concat (map (\<lambda>u. u @ [LF]) urls)"

text \<open>A store with no file at all.\<close>

definition no_files :: store where
  "no_files = (\<lambda>path. Absent)"

section \<open>Concrete inputs\<close>

text \<open>
  A configuration of \<^verbatim>\<open>independent.py\<close> with its default retry count and delay, a
  site that answers every request with a valid article, one that answers none, and one
  whose results carry no markdown. The path of a URL is taken for URLs of the form
  \<^verbatim>\<open>https://host/path\<close>.
\<close>

definition example_config :: config where
  "example_config =
     \<lparr>download_dir = ''articles'', track_file = ''tracked.txt'', urls_file = ''urls.txt'',
      error_file = ''failed.txt'', max_downloads = 5, seed_url = ''http://x/node/0'',
      retry_count = 3, retry_delay = 1, batch_size = 10, concurrent_requests = 3\<rparr>"

definition site_up :: env where
  "site_up =
     \<lparr>arun = (\<lambda>url n. Result ''<article>'' (Some ''text'')),
      arun_cached = (\<lambda>url. Result ''<article>'' (Some ''text'')),
      page_links = (\<lambda>url. []),
      is_valid_article = (\<lambda>html. True),
      extract_links = (\<lambda>html. []),
      url_path = (\<lambda>url. dropWhile (\<lambda>c. c \<noteq> CHR ''/'') (drop 8 url)),
      now = ''2025-01-01 00:00:00'',
      next_worker = (\<lambda>n urls. 0)\<rparr>"

definition site_down :: env where
  "site_down = site_up\<lparr>arun := (\<lambda>url n. Raises ''timeout'')\<rparr>"

definition site_without_markdown :: env where
  "site_without_markdown = site_up\<lparr>arun := (\<lambda>url n. Result ''<article>'' None)\<rparr>"

text \<open>The set \<^verbatim>\<open>new_links\<close> that one iteration of the crawl loop of \<^verbatim>\<open>wiki-how.py\<close>
  computes.\<close>

definition new_links_of :: "wikihow_config \<Rightarrow> env \<Rightarrow> wikihow_state \<Rightarrow> string set" where
  "new_links_of cfg env s =
     (let (queue1, batch) = build_batch (wh_batch_size cfg) (tracked (wh s)) (queue s) [];
          (w1, total1) = wikihow_downloads cfg env batch (wh s) (total_downloaded s);
          s1 = s\<lparr>wh := w1, queue := queue1, total_downloaded := total1\<rparr>
      in snd (discover_links env batch s1))"

text \<open>A wikiHow page with four links, a start state whose tracker holds one of them, and
  a page of \<^verbatim>\<open>independent.py\<close> with two links; a store whose tracker holds a URL that
  the URLs file does not.\<close>

definition wikihow_site :: env where
  "wikihow_site = site_up\<lparr>page_links := (\<lambda>url. if url = ''https://w/Seed''
       then [''https://w/Zip'', ''https://w/Done'', ''https://w/Seed'', ''https://w/Add''] else [])\<rparr>"

definition wikihow_example :: wikihow_config where
  "wikihow_example = \<lparr>wh_download_dir = ''wikihow_articles'', wh_track_file = ''wikihow_tracked.txt'',
     wh_max_downloads = 100000, wh_batch_size = 500\<rparr>"

definition links_site :: env where
  "links_site = site_up\<lparr>extract_links := (\<lambda>html. [''http://x/node/9'', ''http://x/node/8''])\<rparr>"

definition wikihow_start :: wikihow_state where
  "wikihow_start =
     \<lparr>wh = (fresh_world no_files)\<lparr>tracked := {''https://w/Done''}\<rparr>,
      queue = [''https://w/Seed''], seen = {''https://w/Seed''}, total_downloaded = 1\<rparr>"

definition stale_frontier :: store where
  "stale_frontier =
     no_files(''tracked.txt'' := Text ''http://x/node/8\<newline>'',
              ''urls.txt'' := Text ''http://x/node/1\<newline>'')"

text \<open>Whether a URL argument of \<open>update_progress\<close> is given: not \<^verbatim>\<open>None\<close> and not empty.\<close>

definition given :: "string option \<Rightarrow> bool" where
  "given url = (case url of None \<Rightarrow> False | Some u \<Rightarrow> u \<noteq> [])"

text \<open>Readers of a progress document, for the statements about it.\<close>

definition url_entries :: "string option \<Rightarrow> json list" where
  "url_entries url = (case url of None \<Rightarrow> [] | Some u \<Rightarrow> if u = [] then [] else [JStr u])"

definition int_field :: "json \<Rightarrow> string \<Rightarrow> int option" where
  "int_field d key = (case dict_get d key of Inr (JInt n) \<Rightarrow> Some n | _ \<Rightarrow> None)"

definition list_field :: "json \<Rightarrow> string \<Rightarrow> json list option" where
  "list_field d key = (case dict_get d key of Inr (JList xs) \<Rightarrow> Some xs | _ \<Rightarrow> None)"

definition str_field :: "json \<Rightarrow> string \<Rightarrow> string option" where
  "str_field d key = (case dict_get d key of Inr (JStr x) \<Rightarrow> Some x | _ \<Rightarrow> None)"

text \<open>
  An environment of the mass scraper for the examples. Its clock ticks once a second
  and starts its minute again after sixty readings; \<open>seconds_between\<close> is the
  difference of two of its readings and refuses every other text.
  \<open>percent_text\<close> is, for integer counters, the exact quotient rounded to two places
  (half to even), which is what the floating-point computation prints for the small
  counters of the examples. No example holds a float; the environment treats every float
  as \<^verbatim>\<open>nan\<close>. The site has five articles, and there is no saved list of URLs.
\<close>

definition digit :: "nat \<Rightarrow> char" where
  "digit n = ''0123456789'' ! (n mod 10)"

fun decimal :: "nat \<Rightarrow> string" where
  "decimal n = (if n < 10 then [digit n] else decimal (n div 10) @ [digit n])"

definition two_digits :: "nat \<Rightarrow> string" where
  "two_digits n = [digit (n div 10), digit n]"

fun second_of_minute :: "nat \<Rightarrow> nat \<times> nat" where
  "second_of_minute 0 = (0, 0)"
| "second_of_minute (Suc n) =
     (case second_of_minute n of
        (tens, units) \<Rightarrow>
          if units = 9 then (if tens = 5 then (0, 0) else (Suc tens, 0)) else (tens, Suc units))"

definition example_clock :: "nat \<Rightarrow> string" where
  "example_clock n =
     (case second_of_minute n of
        (tens, units) \<Rightarrow> ''2025-01-01T00:00:'' @ [digit tens, digit units])"

fun digit_value :: "char \<Rightarrow> string \<Rightarrow> nat option" where
  "digit_value c [] = None"
| "digit_value c (d # ds) = (if c = d then Some 0 else map_option Suc (digit_value c ds))"

definition clock_seconds :: "string \<Rightarrow> nat option" where
  "clock_seconds t =
     (case rev t of
        u # v # front \<Rightarrow>
          if rev front = ''2025-01-01T00:00:''
          then (case (digit_value v ''012345'', digit_value u ''0123456789'') of
                  (Some tens, Some units) \<Rightarrow> Some (10 * tens + units)
                | _ \<Rightarrow> None)
          else None
      | _ \<Rightarrow> None)"

definition example_seconds_between :: "string \<Rightarrow> string \<Rightarrow> exn + json" where
  "example_seconds_between ended started =
     (case (clock_seconds ended, clock_seconds started) of
        (Some e, Some b) \<Rightarrow>
          Inr (JReal ((if e < b then ''-'' @ decimal (b - e) else decimal (e - b)) @ ''.0''))
      | _ \<Rightarrow> Inl ValueError)"

definition percent_of :: "int \<Rightarrow> int \<Rightarrow> string" where
  "percent_of c t =
     (let n = 10000 * \<bar>c\<bar>; q = n div t; r = n mod t;
          h = (if 2 * r < t then q else if t < 2 * r then q + 1
               else if even q then q else q + 1)
      in (if c < 0 then ''-'' else [])
         @ decimal (nat (h div 100)) @ ''.'' @ two_digits (nat (h mod 100)) @ ''%'')"

definition bbc_example :: bbc_env where
  "bbc_example =
     \<lparr>clock = example_clock,
      float_add = (\<lambda>a b. Some (JReal ''nan'')),
      float_positive = (\<lambda>v. False),
      percent_text = (\<lambda>c t. case (as_int c, as_int t) of
                               (Some x, Some y) \<Rightarrow> Some (if 0 < y then percent_of x y else ''nan%'')
                             | _ \<Rightarrow> Some ''nan%''),
      seconds_between = example_seconds_between,
      saved_urls = None,
      explored_urls = [''https://www.bbc.com/urdu/articles/c1'', ''https://www.bbc.com/urdu/articles/c2'',
                       ''https://www.bbc.com/urdu/articles/c3'', ''https://www.bbc.com/urdu/articles/c4'',
                       ''https://www.bbc.com/urdu/articles/c5''],
      run_dir_exists = False\<rparr>"

text \<open>A run directory without progress file, before anything has happened; and the
  command line \<^verbatim>\<open>--count 100 --batch-size 2\<close>.\<close>

definition new_scraper :: scraper where
  "new_scraper = \<lparr>progress = Missing, ticks = 0, logged = [], finalized = []\<rparr>"

definition example_arguments :: arguments where
  "example_arguments =
     \<lparr>arg_count = 100, arg_workers = 5, arg_batch_size = 2, arg_resume = False,
      arg_delay_range_valid = True\<rparr>"

section \<open>Notions used to state the download cap\<close>

text \<open>The first attempt on the URL returns a valid page with markdown.\<close>

definition succeeds :: "env \<Rightarrow> string \<Rightarrow> bool" where
  "succeeds env url =
     (case arun env url 1 of
        Result html (Some text) \<Rightarrow> is_valid_article env html
      | _ \<Rightarrow> False)"

text \<open>The crawler of \<^verbatim>\<open>wiki-how.py\<close> returns markdown for the URL.\<close>

definition returns_markdown :: "env \<Rightarrow> string \<Rightarrow> bool" where
  "returns_markdown env url =
     (case arun env url 1 of Result html (Some text) \<Rightarrow> True | _ \<Rightarrow> False)"

text \<open>Twelve pages, and a store whose URLs file lists them.\<close>

definition twelve_pages :: "string list" where
  "twelve_pages =
     [''http://x/node/a'', ''http://x/node/b'', ''http://x/node/c'', ''http://x/node/d'',
      ''http://x/node/e'', ''http://x/node/f'', ''http://x/node/g'', ''http://x/node/h'',
      ''http://x/node/i'', ''http://x/node/j'', ''http://x/node/k'', ''http://x/node/l'']"

definition twelve_frontier :: store where
  "twelve_frontier = no_files(''urls.txt'' := Text (log_of twelve_pages))"

chapter \<open>Properties\<close>

section \<open>Lines, stripping and the loaders\<close>

lemma universal_newlines_no_CR:
  "c \<noteq> CR \<Longrightarrow> universal_newlines (c # cs) = c # universal_newlines cs"
  by (cases cs) auto

lemma universal_newlines_append:
  "CR \<notin> set a \<Longrightarrow> universal_newlines (a @ b) = a @ universal_newlines b"
  by (induction a) (auto simp: universal_newlines_no_CR)

lemma universal_newlines_id: "CR \<notin> set a \<Longrightarrow> universal_newlines a = a"
  using universal_newlines_append [of a "[]"] by simp

lemma universal_newlines_chars: "set (universal_newlines s) \<subseteq> insert LF (set s)"
  by (induction s rule: universal_newlines.induct) auto

lemma is_space_LF: "is_space LF"
  by (simp add: is_space_def)

lemma universal_newlines_spaces:
  "\<forall>c\<in>set s. is_space c \<Longrightarrow> \<forall>c\<in>set (universal_newlines s). is_space c"
  using universal_newlines_chars [of s] is_space_LF by auto

lemma file_lines_line:
  "LF \<notin> set u \<Longrightarrow> file_lines (u @ LF # t) = (u @ [LF]) # file_lines t"
  by (induction u) auto

lemma file_lines_last:
  "LF \<notin> set u \<Longrightarrow> file_lines u = (if u = [] then [] else [u])"
  by (induction u) (auto split: list.splits)

lemma file_lines_chars: "l \<in> set (file_lines t) \<Longrightarrow> set l \<subseteq> set t"
proof (induction t arbitrary: l)
  case Nil
  then show ?case by simp
next
  case (Cons c t)
  show ?case
  proof (cases "c = LF")
    case True
    with Cons show ?thesis by auto
  next
    case False
    show ?thesis
    proof (cases "file_lines t")
      case Nil
      with False Cons.prems show ?thesis by simp
    next
      case (Cons l' ls)
      then have "set l' \<subseteq> set t" "\<forall>k\<in>set ls. set k \<subseteq> set t"
        using Cons.IH by auto
      with False Cons Cons.prems show ?thesis by auto
    qed
  qed
qed

lemma strip_blank:
  assumes "\<forall>c\<in>set l. is_space c"
  shows "strip l = []"
  using assms by (auto simp: strip_def dest: set_dropWhileD)

lemma strip_clean:
  assumes "u \<noteq> []" "\<not> is_space (hd u)" "\<not> is_space (last u)"
  shows "strip (u @ [LF]) = u" and "strip u = u"
proof -
  from assms have a: "dropWhile is_space u = u" by (cases u) auto
  from assms have b: "dropWhile is_space (rev u) = rev u"
    by (cases "rev u") (auto simp: last_rev [symmetric] hd_rev)
  have c: "dropWhile is_space (u @ [LF]) = u @ [LF]" using assms by (cases u) auto
  show "strip (u @ [LF]) = u" by (simp add: strip_def c b is_space_def)
  show "strip u = u" by (simp add: strip_def a b)
qed

lemma candidate_loop_set:
  "x \<in> set urls \<Longrightarrow> x \<in> set (candidate_loop ls urls sn)"
  by (induction ls arbitrary: urls sn) (auto simp: Let_def)

lemma candidate_loop_snoc:
  "set urls \<subseteq> sn \<Longrightarrow>
   candidate_loop (ls @ [l]) urls sn =
     (let r = candidate_loop ls urls sn; u = strip l
      in if u \<noteq> [] \<and> u \<notin> sn \<union> set r then r @ [u] else r)"
proof (induction ls arbitrary: urls sn)
  case Nil
  then show ?case by (auto simp: Let_def)
next
  case (Cons a ls)
  show ?case
  proof (cases "strip a \<noteq> [] \<and> strip a \<notin> sn")
    case True
    have sub: "set (urls @ [strip a]) \<subseteq> insert (strip a) sn" using Cons.prems by auto
    have "strip a \<in> set (candidate_loop ls (urls @ [strip a]) (insert (strip a) sn))"
      by (rule candidate_loop_set) simp
    then show ?thesis using True Cons.IH [OF sub] by (auto simp add: Let_def)
  next
    case False
    then show ?thesis using Cons.IH [OF Cons.prems] by (auto simp add: Let_def)
  qed
qed

lemma first_occurrences_snoc:
  "first_occurrences (xs @ [x]) = first_occurrences xs @ (if x \<in> set xs then [] else [x])"
proof -
  have 1: "filter (\<lambda>i. (xs @ [x]) ! i \<notin> set (take i (xs @ [x]))) [0..<length xs]
         = filter (\<lambda>i. xs ! i \<notin> set (take i xs)) [0..<length xs]"
    by (rule filter_cong) (auto simp: nth_append)
  have 2: "map ((!) (xs @ [x])) (filter (\<lambda>i. xs ! i \<notin> set (take i xs)) [0..<length xs])
         = map ((!) xs) (filter (\<lambda>i. xs ! i \<notin> set (take i xs)) [0..<length xs])"
    by (rule map_cong) (auto simp: nth_append)
  have len: "[0..<length (xs @ [x])] = [0..<length xs] @ [length xs]" by simp
  show ?thesis
    unfolding first_occurrences_def len filter_append map_append 1 2 by simp
qed

lemma first_occurrences_Nil: "first_occurrences [] = []"
  by (simp add: first_occurrences_def)

lemma set_first_occurrences: "set (first_occurrences xs) = set xs"
  by (induction xs rule: rev_induct) (auto simp: first_occurrences_snoc first_occurrences_Nil)

lemma distinct_first_occurrences: "distinct (first_occurrences xs)"
  by (induction xs rule: rev_induct)
     (auto simp: first_occurrences_snoc set_first_occurrences first_occurrences_Nil)

lemma candidate_loop_first_occurrences:
  "candidate_loop ls [] {} = first_occurrences (filter (\<lambda>u. u \<noteq> []) (map strip ls))"
proof (induction ls rule: rev_induct)
  case Nil
  show ?case by (simp add: first_occurrences_def)
next
  case (snoc l ls)
  show ?case
    using snoc.IH
    by (simp add: candidate_loop_snoc Let_def first_occurrences_snoc set_first_occurrences)
qed

lemma load_candidate_urls_Text:
  "fs filename = Text txt \<Longrightarrow>
   load_candidate_urls fs filename = first_occurrences (nonblank_lines (universal_newlines txt))"
  by (simp add: load_candidate_urls_def read_text_def nonblank_lines_def
      candidate_loop_first_occurrences)

lemma load_tracked_urls_Text:
  "fs filename = Text txt \<Longrightarrow>
   load_tracked_urls fs filename = set (nonblank_lines (universal_newlines txt))"
  by (auto simp: load_tracked_urls_def read_text_def nonblank_lines_def)

lemma file_lines_log_of:
  "\<forall>u\<in>set urls. LF \<notin> set u \<Longrightarrow>
   file_lines (log_of urls @ t) = map (\<lambda>u. u @ [LF]) urls @ file_lines t"
  by (induction urls) (auto simp: log_of_def file_lines_line)

lemma log_of_no_CR: "\<forall>u\<in>set urls. CR \<notin> set u \<Longrightarrow> CR \<notin> set (log_of urls)"
  by (induction urls) (auto simp: log_of_def)

lemma log_of_snoc: "log_of (urls @ [u]) = log_of urls @ u @ [LF]"
  by (simp add: log_of_def)

lemma nonblank_lines_log_of:
  assumes "\<forall>u\<in>set urls. clean_url u"
  shows "nonblank_lines (log_of urls @ t) = urls @ nonblank_lines t"
proof -
  have "\<forall>u\<in>set urls. LF \<notin> set u" using assms by (simp add: clean_url_def)
  then have lines: "file_lines (log_of urls @ t) = map (\<lambda>u. u @ [LF]) urls @ file_lines t"
    by (rule file_lines_log_of)
  have "map strip (map (\<lambda>u. u @ [LF]) urls) = urls"
    using assms by (induction urls) (auto simp: clean_url_def strip_clean)
  moreover have "filter (\<lambda>u. u \<noteq> []) urls = urls"
    using assms by (induction urls) (auto simp: clean_url_def)
  ultimately show ?thesis
    by (simp add: nonblank_lines_def lines del: map_map)
qed

lemma nonblank_lines_blank:
  assumes "\<forall>c\<in>set t. is_space c"
  shows "nonblank_lines t = []"
proof -
  have "\<forall>l\<in>set (file_lines t). strip l = []"
    using assms file_lines_chars by (blast intro: strip_blank)
  then show ?thesis
    by (simp add: nonblank_lines_def filter_empty_conv)
qed

lemma fold_add_to_tracked:
  "fold (\<lambda>u. add_to_tracked u f) urls fs =
     (if urls = [] then fs
      else fs(f := (case fs f of
                      Absent \<Rightarrow> Text (log_of urls)
                    | Unreadable \<Rightarrow> Unreadable
                    | Text c \<Rightarrow> Text (c @ log_of urls))))"
proof (induction urls rule: rev_induct)
  case Nil
  show ?case by simp
next
  case (snoc u urls)
  have "fold (\<lambda>u. add_to_tracked u f) (urls @ [u]) fs
          = add_to_tracked u f (fold (\<lambda>u. add_to_tracked u f) urls fs)"
    by simp
  also have "\<dots> = add_to_tracked u f
                    (if urls = [] then fs
                     else fs(f := (case fs f of
                                     Absent \<Rightarrow> Text (log_of urls)
                                   | Unreadable \<Rightarrow> Unreadable
                                   | Text c \<Rightarrow> Text (c @ log_of urls))))"
    by (simp only: snoc.IH)
  also have "\<dots> = fs(f := (case fs f of
                              Absent \<Rightarrow> Text (log_of (urls @ [u]))
                            | Unreadable \<Rightarrow> Unreadable
                            | Text c \<Rightarrow> Text (c @ log_of (urls @ [u]))))"
    by (cases "fs f") (auto simp: add_to_tracked_def append_text_def log_of_snoc log_of_def)
  finally show ?case by simp
qed

section \<open>The candidate file is loaded without duplicates, in first-seen order\<close>

text \<open>
  Claim C9. For every candidate file that can be read, \<open>load_candidate_urls\<close> returns
  the stripped non-blank lines of the file, each distinct one exactly once, at the place
  of its first occurrence: the result is the list of first occurrences of the non-blank
  lines, it has no duplicates, and it has the same elements as the file.
\<close>

theorem load_candidate_urls_first_seen:
  assumes "fs filename = Text txt"
  shows "load_candidate_urls fs filename
           = first_occurrences (nonblank_lines (universal_newlines txt))
       \<and> distinct (load_candidate_urls fs filename)
       \<and> set (load_candidate_urls fs filename) = set (nonblank_lines (universal_newlines txt))"
  using assms
  by (simp add: load_candidate_urls_Text distinct_first_occurrences set_first_occurrences)

theorem load_candidate_urls_first_seen_witness:
  "(no_files(''urls.txt'' := Text ''b\<newline>a\<newline>\<newline>b\<newline>  a \<newline>c'')) ''urls.txt''
      = Text ''b\<newline>a\<newline>\<newline>b\<newline>  a \<newline>c''
   \<and> nonblank_lines (universal_newlines ''b\<newline>a\<newline>\<newline>b\<newline>  a \<newline>c'')
      = [''b'', ''a'', ''b'', ''a'', ''c'']
   \<and> load_candidate_urls
        (no_files(''urls.txt'' := Text ''b\<newline>a\<newline>\<newline>b\<newline>  a \<newline>c'')) ''urls.txt''
      = [''b'', ''a'', ''c'']"
  using load_candidate_urls_first_seen
    [of "no_files(''urls.txt'' := Text ''b\<newline>a\<newline>\<newline>b\<newline>  a \<newline>c'')"
        "''urls.txt''" "''b\<newline>a\<newline>\<newline>b\<newline>  a \<newline>c''"]
  by (simp add: nonblank_lines_def strip_def is_space_def first_occurrences_def)

section \<open>A tracker file that cannot be read\<close>

text \<open>
  Claim C10. Loading the tracked URLs never raises: the loaders of
  \<^verbatim>\<open>independent.py\<close> and \<^verbatim>\<open>rekhta-data.py\<close> are total, and whenever reading the
  file raises (the file is absent, or it cannot be decoded) they return the empty set.
\<close>

theorem load_tracked_urls_read_error:
  assumes "read_text fs filename = Inl e"
  shows "load_tracked_urls fs filename = {} \<and> rekhta_load_tracked_urls fs filename = {}"
  using assms
  by (cases e) (simp_all add: load_tracked_urls_def rekhta_load_tracked_urls_def)

theorem load_tracked_urls_read_error_witness:
  "read_text no_files ''tracked.txt'' = Inl FileNotFoundError
   \<and> load_tracked_urls no_files ''tracked.txt'' = {}
   \<and> rekhta_load_tracked_urls no_files ''tracked.txt'' = {}
   \<and> read_text (no_files(''tracked.txt'' := Unreadable)) ''tracked.txt'' = Inl UnicodeDecodeError
   \<and> load_tracked_urls (no_files(''tracked.txt'' := Unreadable)) ''tracked.txt'' = {}
   \<and> rekhta_load_tracked_urls (no_files(''tracked.txt'' := Unreadable)) ''tracked.txt'' = {}"
  using load_tracked_urls_read_error [of no_files "''tracked.txt''" FileNotFoundError]
    load_tracked_urls_read_error
      [of "no_files(''tracked.txt'' := Unreadable)" "''tracked.txt''" UnicodeDecodeError]
  by (simp add: read_text_def no_files_def)

section \<open>The tracker log read back\<close>

text \<open>
  Claim C5, as stated, fails: a trailing line that is not blank is not skipped. After
  \<open>add_to_tracked\<close> of two URLs and a third write cut off in the middle of a line, the
  loader returns three strings, the partial line among them.
\<close>

theorem tracker_partial_line_counterexample:
  "load_tracked_urls
     (append_text
        (add_to_tracked ''http://x/2'' ''tracked.txt''
           (add_to_tracked ''http://x/1'' ''tracked.txt'' no_files))
        ''tracked.txt'' ''http://x'')
     ''tracked.txt''
   = {''http://x/1'', ''http://x/2'', ''http://x''}
   \<and> load_tracked_urls
     (append_text
        (add_to_tracked ''http://x/2'' ''tracked.txt''
           (add_to_tracked ''http://x/1'' ''tracked.txt'' no_files))
        ''tracked.txt'' ''http://x'')
     ''tracked.txt''
   \<noteq> {''http://x/1'', ''http://x/2''}"
proof -
  have loaded:
    "load_tracked_urls
       (append_text
          (add_to_tracked ''http://x/2'' ''tracked.txt''
             (add_to_tracked ''http://x/1'' ''tracked.txt'' no_files))
          ''tracked.txt'' ''http://x'')
       ''tracked.txt''
     = {''http://x/1'', ''http://x/2'', ''http://x''}"
    by (simp add: load_tracked_urls_def read_text_def append_text_def add_to_tracked_def
        no_files_def strip_def is_space_def insert_commute)
  have "''http://x'' \<notin> {''http://x/1'', ''http://x/2''}" by simp
  then have differ:
    "{''http://x/1'', ''http://x/2'', ''http://x''} \<noteq> {''http://x/1'', ''http://x/2''}"
    by (metis insertCI)
  show ?thesis
    unfolding loaded using differ by (intro conjI refl)
qed

text \<open>
  Claim C5, amended. Starting from a tracker file that is absent or empty, after
  \<open>add_to_tracked\<close> of any list of clean URLs the loader returns exactly the set of these
  URLs, also when blank text (whitespace and line breaks only) follows the last line. A
  trailing partial line that is not blank is not skipped: it is loaded, stripped, as one
  more URL. No content of the log makes the loader fail.
\<close>

theorem tracker_roundtrip:
  assumes clean: "\<forall>u\<in>set urls. clean_url u"
    and fresh: "fs f = Absent \<or> fs f = Text []"
  shows "((\<forall>c\<in>set blank. is_space c) \<longrightarrow>
           load_tracked_urls (append_text (fold (\<lambda>u. add_to_tracked u f) urls fs) f blank) f
             = set urls)
       \<and> (LF \<notin> set partial \<and> CR \<notin> set partial \<and> strip partial \<noteq> [] \<longrightarrow>
           load_tracked_urls (append_text (fold (\<lambda>u. add_to_tracked u f) urls fs) f partial) f
             = insert (strip partial) (set urls))"
proof -
  have content: "append_text (fold (\<lambda>u. add_to_tracked u f) urls fs) f t f
                   = Text (log_of urls @ t)" for t
    using fresh by (auto simp: fold_add_to_tracked append_text_def log_of_def)
  have noCR: "CR \<notin> set (log_of urls)"
    using clean by (intro log_of_no_CR) (simp add: clean_url_def)
  have load: "load_tracked_urls (append_text (fold (\<lambda>u. add_to_tracked u f) urls fs) f t) f
                = set urls \<union> set (nonblank_lines (universal_newlines t))" for t
    using content [of t]
    by (simp add: load_tracked_urls_Text universal_newlines_append [OF noCR]
        nonblank_lines_log_of [OF clean])
  have blank: "(\<forall>c\<in>set blank. is_space c) \<longrightarrow>
           load_tracked_urls (append_text (fold (\<lambda>u. add_to_tracked u f) urls fs) f blank) f
             = set urls"
    by (simp add: load nonblank_lines_blank universal_newlines_spaces)
  have partial: "LF \<notin> set partial \<and> CR \<notin> set partial \<and> strip partial \<noteq> [] \<longrightarrow>
           load_tracked_urls (append_text (fold (\<lambda>u. add_to_tracked u f) urls fs) f partial) f
             = insert (strip partial) (set urls)"
  proof
    assume p: "LF \<notin> set partial \<and> CR \<notin> set partial \<and> strip partial \<noteq> []"
    then have "partial \<noteq> []" by (auto simp: strip_def)
    with p have "nonblank_lines (universal_newlines partial) = [strip partial]"
      by (simp add: universal_newlines_id nonblank_lines_def file_lines_last)
    then show "load_tracked_urls
                 (append_text (fold (\<lambda>u. add_to_tracked u f) urls fs) f partial) f
               = insert (strip partial) (set urls)"
      by (simp add: load)
  qed
  from blank partial show ?thesis by blast
qed

theorem tracker_roundtrip_witness:
  "clean_url ''http://x/1'' \<and> clean_url ''http://x/2''
   \<and> is_space CHR '' '' \<and> is_space LF
   \<and> load_tracked_urls
        (append_text
           (fold (\<lambda>u. add_to_tracked u ''tracked.txt'') [''http://x/1'', ''http://x/2''] no_files)
           ''tracked.txt'' '' \<newline>\<newline>'')
        ''tracked.txt''
      = {''http://x/1'', ''http://x/2''}
   \<and> strip ''http://x'' = ''http://x''
   \<and> load_tracked_urls
        (append_text
           (fold (\<lambda>u. add_to_tracked u ''tracked.txt'') [''http://x/1'', ''http://x/2''] no_files)
           ''tracked.txt'' ''http://x'')
        ''tracked.txt''
      = {''http://x'', ''http://x/1'', ''http://x/2''}"
  using tracker_roundtrip
    [of "[''http://x/1'', ''http://x/2'']" no_files "''tracked.txt''" "'' \<newline>\<newline>''"
        "''http://x''"]
  by (simp add: clean_url_def is_space_def strip_def no_files_def)

section \<open>What one call of the worker does\<close>

lemmas counter_defs = fetches_of_def writes_of_def track_appends_of_def fail_appends_of_def

lemma path_exists_append_text:
  "path_exists fs p \<Longrightarrow> path_exists (append_text fs q s) p"
  by (auto simp: path_exists_def append_text_def split: file_content.splits)

lemma path_exists_write_text: "path_exists (write_text fs p s) p"
  by (simp add: path_exists_def write_text_def)

lemma attempt_once_Next:
  assumes "attempt_once cfg env url a w = (w', Next)"
  shows "tracked w' = tracked w \<and> failed w' = failed w
       \<and> track_appends_of u w' = track_appends_of u w
       \<and> writes_of p w' = writes_of p w
       \<and> fail_appends_of u w' = fail_appends_of u w
       \<and> fetches_of u w' = fetches_of u w + (if u = url then 1 else 0)"
  using assms
  by (auto simp: attempt_once_def on_exception_def mark_failed_def mark_tracked_def emit_def
      counter_defs Let_def split: response.splits option.splits if_splits)

lemma attempt_once_Return:
  assumes "attempt_once cfg env url a w = (w', Return (ok, html))"
  shows "tracked w' = (if ok then insert url (tracked w) else tracked w)
       \<and> failed w' = (if ok then failed w else insert url (failed w))
       \<and> track_appends_of u w' = track_appends_of u w + (if ok \<and> u = url then 1 else 0)
       \<and> writes_of p w' = writes_of p w + (if ok \<and> p = outfile cfg url then 1 else 0)
       \<and> fail_appends_of u w' = fail_appends_of u w + (if \<not> ok \<and> u = url then 1 else 0)
       \<and> fetches_of u w' = fetches_of u w + (if u = url then 1 else 0)
       \<and> (ok \<longrightarrow> path_exists (files w') (outfile cfg url))"
  using assms
  by (auto simp: attempt_once_def on_exception_def mark_failed_def mark_tracked_def emit_def
      counter_defs Let_def add_to_tracked_def path_exists_append_text path_exists_write_text
      split: response.splits option.splits if_splits)


lemma retry_loop_effects:
  assumes "retry_loop cfg env url attempts w = (w', ok, html)"
  shows "tracked w' = (if ok then insert url (tracked w) else tracked w)
       \<and> track_appends_of u w' = track_appends_of u w + (if ok \<and> u = url then 1 else 0)
       \<and> writes_of p w' = writes_of p w + (if ok \<and> p = outfile cfg url then 1 else 0)
       \<and> (ok \<longrightarrow> fail_appends_of u w' = fail_appends_of u w)
       \<and> (u \<noteq> url \<longrightarrow> fetches_of u w' = fetches_of u w)
       \<and> (ok \<longrightarrow> path_exists (files w') (outfile cfg url))"
  using assms
proof (induction attempts arbitrary: w)
  case Nil
  then show ?case by auto
next
  case (Cons a attempts)
  obtain w1 r where step: "attempt_once cfg env url a w = (w1, r)"
    by (cases "attempt_once cfg env url a w")
  show ?case
  proof (cases r)
    case Next
    with step Cons.prems have "retry_loop cfg env url attempts w1 = (w', ok, html)" by simp
    from Cons.IH [OF this] attempt_once_Next [OF step [unfolded Next], of u p]
    show ?thesis by simp
  next
    case (Return res)
    with step Cons.prems have "w1 = w'" "res = (ok, html)" by auto
    with step Return have "attempt_once cfg env url a w = (w', Return (ok, html))" by simp
    from attempt_once_Return [OF this, of u p] show ?thesis by simp
  qed
qed

lemma download_article_effects:
  assumes "download_article cfg env url w = (w', ok, html)"
  shows "tracked w \<subseteq> tracked w' \<and> tracked w' \<subseteq> insert url (tracked w)
       \<and> (ok \<longrightarrow> url \<in> tracked w' \<and> url \<notin> tracked w)
       \<and> track_appends_of u w'
           = track_appends_of u w + (if u = url \<and> url \<in> tracked w' \<and> url \<notin> tracked w then 1 else 0)
       \<and> writes_of p w' = writes_of p w + (if ok \<and> p = outfile cfg url then 1 else 0)
       \<and> (url \<in> tracked w' \<longrightarrow> fail_appends_of u w' = fail_appends_of u w)
       \<and> (u \<noteq> url \<or> url \<in> tracked w \<longrightarrow> fetches_of u w' = fetches_of u w)
       \<and> (url \<in> tracked w' \<and> url \<notin> tracked w \<longrightarrow> path_exists (files w') (outfile cfg url))"
proof (cases "url \<in> tracked w")
  case True
  with assms show ?thesis by (auto simp: download_article_def)
next
  case False
  show ?thesis
  proof (cases "path_exists (files w) (outfile cfg url)")
    case True
    with False assms show ?thesis
      by (auto simp: download_article_def mark_tracked_def emit_def counter_defs
          add_to_tracked_def path_exists_append_text)
  next
    case nofile: False
    with False assms
    have loop: "retry_loop cfg env url [1..retry_count cfg] (emit RateLimitSleep w) = (w', ok, html)"
      by (simp add: download_article_def)
    from retry_loop_effects [OF loop, of u p] False
    show ?thesis by (auto simp: emit_def counter_defs)
  qed
qed

section \<open>A tracked URL is not fetched again\<close>

lemma start_workers_untouched:
  assumes "u \<in> tracked w"
  shows "u \<in> tracked (fst (start_workers cfg tasks w))
       \<and> fetches_of u (fst (start_workers cfg tasks w)) = fetches_of u w
       \<and> track_appends_of u (fst (start_workers cfg tasks w)) = track_appends_of u w
       \<and> u \<notin> fst ` set (snd (start_workers cfg tasks w))"
  using assms
proof (induction tasks arbitrary: w)
  case Nil
  then show ?case by simp
next
  case (Cons url urls)
  show ?case
  proof (cases "url \<in> tracked w")
    case True
    with Cons.IH [OF Cons.prems] show ?thesis by simp
  next
    case False
    with Cons.prems have ne: "u \<noteq> url" by auto
    show ?thesis
    proof (cases "path_exists (files w) (outfile cfg url)")
      case True
      let ?w1 = "mark_tracked cfg url w"
      have 1: "u \<in> tracked ?w1" "fetches_of u ?w1 = fetches_of u w"
        "track_appends_of u ?w1 = track_appends_of u w"
        using Cons.prems ne by (simp_all add: mark_tracked_def emit_def counter_defs)
      from Cons.IH [OF 1(1)] 1 False True show ?thesis by simp
    next
      case nofile: False
      let ?w1 = "emit RateLimitSleep w"
      have 1: "u \<in> tracked ?w1" "fetches_of u ?w1 = fetches_of u w"
        "track_appends_of u ?w1 = track_appends_of u w"
        using Cons.prems by (simp_all add: emit_def counter_defs)
      from Cons.IH [OF 1(1)] 1 False nofile ne show ?thesis
        by (simp add: split_beta)
    qed
  qed
qed

lemma event_loop_Nil: "event_loop cfg env [] w = w"
  by (subst event_loop.simps) simp

lemma event_loop_untouched:
  assumes "u \<in> tracked w" and "u \<notin> fst ` set suspended"
  shows "u \<in> tracked (event_loop cfg env suspended w)
       \<and> fetches_of u (event_loop cfg env suspended w) = fetches_of u w
       \<and> track_appends_of u (event_loop cfg env suspended w) = track_appends_of u w"
  using assms
proof (induction cfg env suspended w rule: event_loop.induct)
  case (1 cfg env suspended w)
  show ?case
  proof (cases "suspended = []")
    case True
    with "1.prems" show ?thesis by (simp add: event_loop_Nil)
  next
    case False
    define i where "i = next_worker env (length (trace w)) (map fst suspended) mod length suspended"
    define url where "url = fst (suspended ! i)"
    define others where "others = take i suspended @ drop (Suc i) suspended"
    from False have il: "i < length suspended" by (simp add: i_def)
    then have "suspended ! i \<in> set suspended" by simp
    with "1.prems"(2) have ne: "u \<noteq> url" by (auto simp: url_def)
    have sub: "set others \<subseteq> set suspended"
      unfolding others_def by (auto dest: in_set_takeD in_set_dropD)
    with "1.prems"(2) have o: "u \<notin> fst ` set others" by auto
    show ?thesis
    proof (cases "snd (suspended ! i)")
      case Nil
      have loop: "event_loop cfg env suspended w = event_loop cfg env others w"
        using False Nil
        by (subst event_loop.simps) (simp add: Let_def i_def [symmetric] others_def [symmetric])
      from "1.IH"(1) [OF False i_def url_def others_def Nil "1.prems"(1) o]
      show ?thesis unfolding loop .
    next
      case (Cons attempt rest)
      obtain w' r where step: "attempt_once cfg env url attempt w = (w', r)"
        by (cases "attempt_once cfg env url attempt w")
      show ?thesis
      proof (cases r)
        case Next
        have loop: "event_loop cfg env suspended w
                    = event_loop cfg env (suspended[i := (url, rest)]) w'"
          using False Cons step Next
          by (subst event_loop.simps)
             (simp add: Let_def i_def [symmetric] others_def [symmetric] url_def [symmetric])
        from attempt_once_Next [OF step [unfolded Next], of u] ne "1.prems"(1)
        have w': "u \<in> tracked w'" "fetches_of u w' = fetches_of u w"
          "track_appends_of u w' = track_appends_of u w" by simp_all
        have "set (suspended[i := (url, rest)]) \<subseteq> insert (url, rest) (set suspended)"
          by (rule set_update_subset_insert)
        with "1.prems"(2) ne have u': "u \<notin> fst ` set (suspended[i := (url, rest)])" by auto
        from "1.IH"(3) [OF False i_def url_def others_def Cons step [symmetric] Next w'(1) u'] w'
        show ?thesis unfolding loop by simp
      next
        case (Return res)
        obtain ok html where res: "res = (ok, html)" by (cases res)
        have loop: "event_loop cfg env suspended w = event_loop cfg env others w'"
          using False Cons step Return
          by (subst event_loop.simps)
             (simp add: Let_def i_def [symmetric] others_def [symmetric] url_def [symmetric])
        from attempt_once_Return [OF step [unfolded Return res], of u] ne "1.prems"(1)
        have w': "u \<in> tracked w'" "fetches_of u w' = fetches_of u w"
          "track_appends_of u w' = track_appends_of u w" by (simp_all split: if_splits)
        from "1.IH"(2) [OF False i_def url_def others_def Cons step [symmetric] Return w'(1) o] w'
        show ?thesis unfolding loop by simp
      qed
    qed
  qed
qed

lemma gather_untouched:
  assumes "u \<in> tracked w"
  shows "u \<in> tracked (gather cfg env tasks w)
       \<and> fetches_of u (gather cfg env tasks w) = fetches_of u w
       \<and> track_appends_of u (gather cfg env tasks w) = track_appends_of u w"
proof -
  note s = start_workers_untouched [OF assms, of cfg tasks]
  from s have "u \<in> tracked (fst (start_workers cfg tasks w))"
    "u \<notin> fst ` set (snd (start_workers cfg tasks w))" by simp_all
  from event_loop_untouched [OF this, of cfg env] s
  show ?thesis by (simp add: gather_def split_beta)
qed


lemma event_loop_single:
  "event_loop cfg env [(url, attempts)] w = fst (retry_loop cfg env url attempts w)"
proof (induction attempts arbitrary: w)
  case Nil
  show ?case by (subst event_loop.simps) (simp add: event_loop_Nil)
next
  case (Cons a attempts)
  obtain w' r where step: "attempt_once cfg env url a w = (w', r)"
    by (cases "attempt_once cfg env url a w")
  show ?case
  proof (cases r)
    case Next
    with step Cons.IH [of w'] show ?thesis
      by (subst event_loop.simps) simp
  next
    case (Return res)
    from step Return show ?thesis
      by (subst event_loop.simps) (simp add: split_beta event_loop_Nil)
  qed
qed

text \<open>A worker that is gathered alone does what \<open>download_article\<close> describes.\<close>

lemma gather_single: "gather cfg env [url] w = fst (download_article cfg env url w)"
proof -
  show ?thesis
    by (simp add: gather_def download_article_def event_loop_single event_loop_Nil)
qed

text \<open>
  Two URLs with the same last segment share their output file. Gathered together, both
  workers find the file absent before either of them has fetched, so both fetch and both
  write; called one after the other, the second call finds the file and only marks its
  URL as tracked.
\<close>

lemma gather_shared_output_file:
  "outfile example_config ''http://x/a/page'' = outfile example_config ''http://x/b/page''
   \<and> fetched (trace (gather example_config site_up [''http://x/a/page'', ''http://x/b/page'']
                      (fresh_world no_files)))
      = [''http://x/a/page'', ''http://x/b/page'']
   \<and> writes_of (outfile example_config ''http://x/a/page'')
        (gather example_config site_up [''http://x/a/page'', ''http://x/b/page'']
           (fresh_world no_files)) = 2
   \<and> fetched (trace (fst (download_article example_config site_up ''http://x/b/page''
                (fst (download_article example_config site_up ''http://x/a/page''
                   (fresh_world no_files))))))
      = [''http://x/a/page'']"
  by code_simp

lemma batch_loop_untouched:
  assumes "u \<in> tracked w"
  shows "u \<in> tracked (batch_loop cfg env urls tasks w)
       \<and> fetches_of u (batch_loop cfg env urls tasks w) = fetches_of u w
       \<and> track_appends_of u (batch_loop cfg env urls tasks w) = track_appends_of u w"
  using assms
proof (induction urls arbitrary: tasks w)
  case Nil
  then show ?case using gather_untouched [of u w] by simp
next
  case (Cons url urls)
  show ?case
  proof (cases "url \<in> tracked w \<or> url \<in> failed w")
    case True
    then show ?thesis using Cons.IH [OF Cons.prems] by simp
  next
    case False
    show ?thesis
    proof (cases "concurrent_requests cfg \<le> int (length (tasks @ [url]))")
      case True
      from gather_untouched [OF Cons.prems, of cfg env "tasks @ [url]"]
      have g: "u \<in> tracked (gather cfg env (tasks @ [url]) w)"
        "fetches_of u (gather cfg env (tasks @ [url]) w) = fetches_of u w"
        "track_appends_of u (gather cfg env (tasks @ [url]) w) = track_appends_of u w"
        by auto
      from Cons.IH [OF g(1), of "[]"] g False True show ?thesis by simp
    next
      case nogather: False
      with False Cons.IH [OF Cons.prems, of "tasks @ [url]"] show ?thesis by simp
    qed
  qed
qed

text \<open>
  Claim C4. A URL that is in the tracked set when it is dispatched costs no fetch and
  changes nothing: \<open>download_article\<close> returns at once with the state as it was, and a
  whole batch that contains the URL neither fetches it nor appends it to the tracker
  again. With the tracker \<open>{A, B}\<close> and the candidates \<open>A, B, C\<close> only \<open>C\<close> is
  fetched.
\<close>

theorem tracked_url_is_not_fetched:
  assumes "url \<in> tracked w"
  shows "download_article cfg env url w = (w, False, None)
       \<and> url \<in> tracked (fst (process_batch cfg env urls w))
       \<and> fetches_of url (fst (process_batch cfg env urls w)) = fetches_of url w
       \<and> track_appends_of url (fst (process_batch cfg env urls w)) = track_appends_of url w"
  using assms batch_loop_untouched [OF assms, of cfg env urls "[]"]
  by (simp add: download_article_def process_batch_def Let_def)

theorem tracked_url_is_not_fetched_witness:
  "''http://x/node/1'' \<in> tracked ((fresh_world no_files)\<lparr>tracked := {''http://x/node/1'', ''http://x/node/2''}\<rparr>)
   \<and> download_article example_config site_up ''http://x/node/1''
        ((fresh_world no_files)\<lparr>tracked := {''http://x/node/1'', ''http://x/node/2''}\<rparr>)
      = ((fresh_world no_files)\<lparr>tracked := {''http://x/node/1'', ''http://x/node/2''}\<rparr>, False, None)
   \<and> fetched (trace (fst (process_batch example_config site_up
         [''http://x/node/1'', ''http://x/node/2'', ''http://x/node/3'']
         ((fresh_world no_files)\<lparr>tracked := {''http://x/node/1'', ''http://x/node/2''}\<rparr>))))
      = [''http://x/node/3'']"
proof -
  have mem: "''http://x/node/1''
      \<in> tracked ((fresh_world no_files)\<lparr>tracked := {''http://x/node/1'', ''http://x/node/2''}\<rparr>)"
    by simp
  have run: "fetched (trace (fst (process_batch example_config site_up
         [''http://x/node/1'', ''http://x/node/2'', ''http://x/node/3'']
         ((fresh_world no_files)\<lparr>tracked := {''http://x/node/1'', ''http://x/node/2''}\<rparr>))))
      = [''http://x/node/3'']"
    by code_simp
  from mem run tracked_url_is_not_fetched [OF mem, of example_config site_up]
  show ?thesis by blast
qed

lemma nature_download_article_effects:
  assumes "nature_download_article dir track env url w n = (w', n')"
  shows "(case arun env url 1 of
            Raises msg \<Rightarrow>
              tracked w' = tracked w \<and> track_appends_of url w' = track_appends_of url w
              \<and> writes_of p w' = writes_of p w \<and> n' = n
          | Result html None \<Rightarrow>
              tracked w' = insert url (tracked w)
              \<and> track_appends_of url w' = track_appends_of url w + 1
              \<and> writes_of p w' = writes_of p w \<and> n' = n + 1
          | Result html (Some text) \<Rightarrow>
              tracked w' = insert url (tracked w)
              \<and> track_appends_of url w' = track_appends_of url w + 1
              \<and> writes_of p w'
                  = writes_of p w + (if p = path_join dir (nature_slug env url @ ''.md'') then 1 else 0)
              \<and> n' = n + 1)"
  using assms
  by (auto simp: nature_download_article_def emit_def counter_defs Let_def
      split: response.splits option.splits)

section \<open>Completed URLs and their artifacts\<close>

text \<open>
  Claim C3, as stated, fails: a URL can be marked completed by a call that writes no
  artifact. In \<^verbatim>\<open>independent.py\<close> a URL whose output file already exists is appended
  to the tracker without a fetch and without a write. In \<^verbatim>\<open>nature-articles.py\<close> a
  result with \<^verbatim>\<open>markdown = None\<close> is not written, and its URL is tracked all the
  same; no file exists afterwards.
\<close>

theorem completed_without_artifact_counterexample:
  "trace (fst (download_article example_config site_up ''http://x/node/7''
          (fresh_world (no_files(''articles/7.md'' := Text ''old'')))))
     = [TrackAppend ''http://x/node/7'']
   \<and> ''http://x/node/7''
       \<in> tracked (fst (download_article example_config site_up ''http://x/node/7''
          (fresh_world (no_files(''articles/7.md'' := Text ''old'')))))
   \<and> trace (fst (nature_download_article ''nature_articles'' ''nature_tracked.txt''
          site_without_markdown ''https://x/articles/s1'' (fresh_world no_files) 0))
     = [Fetch ''https://x/articles/s1'', TrackAppend ''https://x/articles/s1'']
   \<and> ''https://x/articles/s1''
       \<in> tracked (fst (nature_download_article ''nature_articles'' ''nature_tracked.txt''
          site_without_markdown ''https://x/articles/s1'' (fresh_world no_files) 0))
   \<and> files (fst (nature_download_article ''nature_articles'' ''nature_tracked.txt''
          site_without_markdown ''https://x/articles/s1'' (fresh_world no_files) 0))
        ''nature_articles/articles_s1.md'' = Absent"
  by code_simp

text \<open>
  Claim C3, amended. One call of the worker of \<^verbatim>\<open>independent.py\<close> appends its URL
  to the tracker at most once. When the call marks the URL completed, the artifact file
  exists afterwards, the call wrote it at most once (not at all when it was already
  there) and did not mark the URL failed. A call that reports success wrote the artifact
  exactly once and appended the URL to the tracker exactly once. In
  \<^verbatim>\<open>nature-articles.py\<close> a fetch that returns markdown is followed by exactly one
  write of the artifact and one tracker append, a fetch that raises by no tracker update.
\<close>

theorem completed_has_artifact:
  assumes "download_article cfg env url w = (w', ok, html)"
  shows "track_appends_of url w' \<le> track_appends_of url w + 1
       \<and> (url \<in> tracked w' \<and> url \<notin> tracked w \<longrightarrow>
            track_appends_of url w' = track_appends_of url w + 1
            \<and> path_exists (files w') (outfile cfg url)
            \<and> writes_of (outfile cfg url) w' \<le> writes_of (outfile cfg url) w + 1
            \<and> fail_appends_of url w' = fail_appends_of url w)
       \<and> (ok \<longrightarrow>
            url \<in> tracked w' \<and> url \<notin> tracked w
            \<and> writes_of (outfile cfg url) w' = writes_of (outfile cfg url) w + 1
            \<and> track_appends_of url w' = track_appends_of url w + 1
            \<and> fail_appends_of url w' = fail_appends_of url w)
       \<and> (\<forall>h text. arun env url 1 = Result h (Some text) \<longrightarrow>
            writes_of (path_join dir (nature_slug env url @ ''.md''))
                (fst (nature_download_article dir track env url w n))
              = writes_of (path_join dir (nature_slug env url @ ''.md'')) w + 1
            \<and> track_appends_of url (fst (nature_download_article dir track env url w n))
              = track_appends_of url w + 1
            \<and> url \<in> tracked (fst (nature_download_article dir track env url w n)))
       \<and> (\<forall>msg. arun env url 1 = Raises msg \<longrightarrow>
            tracked (fst (nature_download_article dir track env url w n)) = tracked w
            \<and> track_appends_of url (fst (nature_download_article dir track env url w n))
              = track_appends_of url w)"
proof -
  obtain w2 n2 where nat: "nature_download_article dir track env url w n = (w2, n2)"
    by (cases "nature_download_article dir track env url w n")
  from download_article_effects [OF assms, of url "outfile cfg url"]
    nature_download_article_effects [OF nat, of "path_join dir (nature_slug env url @ ''.md'')"]
  show ?thesis by (auto simp: nat)
qed

theorem completed_has_artifact_witness:
  "fst (snd (download_article example_config site_up ''http://x/node/7'' (fresh_world no_files)))
   \<and> ''http://x/node/7'' \<in> tracked (fst (download_article example_config site_up
        ''http://x/node/7'' (fresh_world no_files)))
   \<and> ''http://x/node/7'' \<notin> tracked (fresh_world no_files)
   \<and> outfile example_config ''http://x/node/7'' = ''articles/7.md''
   \<and> trace (fst (download_article example_config site_up ''http://x/node/7'' (fresh_world no_files)))
      = [RateLimitSleep, Fetch ''http://x/node/7'', WriteArtifact ''articles/7.md'',
         TrackAppend ''http://x/node/7'']
   \<and> writes_of ''articles/7.md''
        (fst (download_article example_config site_up ''http://x/node/7'' (fresh_world no_files)))
      = writes_of ''articles/7.md'' (fresh_world no_files) + 1
   \<and> arun site_up ''https://x/articles/s1'' 1 = Result ''<article>'' (Some ''text'')
   \<and> trace (fst (nature_download_article ''nature_articles'' ''nature_tracked.txt''
          site_up ''https://x/articles/s1'' (fresh_world no_files) 0))
     = [Fetch ''https://x/articles/s1'', WriteArtifact ''nature_articles/articles_s1.md'',
        TrackAppend ''https://x/articles/s1'']"
proof -
  have run: "download_article example_config site_up ''http://x/node/7'' (fresh_world no_files)
      = (fst (download_article example_config site_up ''http://x/node/7'' (fresh_world no_files)),
         fst (snd (download_article example_config site_up ''http://x/node/7'' (fresh_world no_files))),
         snd (snd (download_article example_config site_up ''http://x/node/7'' (fresh_world no_files))))"
    by simp
  have ok: "fst (snd (download_article example_config site_up ''http://x/node/7'' (fresh_world no_files)))"
    by code_simp
  have out: "outfile example_config ''http://x/node/7'' = ''articles/7.md''"
    by code_simp
  have tr: "trace (fst (download_article example_config site_up ''http://x/node/7'' (fresh_world no_files)))
      = [RateLimitSleep, Fetch ''http://x/node/7'', WriteArtifact ''articles/7.md'',
         TrackAppend ''http://x/node/7'']"
    by code_simp
  have fresh: "''http://x/node/7'' \<notin> tracked (fresh_world no_files)"
    by (simp add: fresh_world_def)
  have site: "arun site_up ''https://x/articles/s1'' 1 = Result ''<article>'' (Some ''text'')"
    by (simp add: site_up_def)
  have ntr: "trace (fst (nature_download_article ''nature_articles'' ''nature_tracked.txt''
          site_up ''https://x/articles/s1'' (fresh_world no_files) 0))
     = [Fetch ''https://x/articles/s1'', WriteArtifact ''nature_articles/articles_s1.md'',
        TrackAppend ''https://x/articles/s1'']"
    by code_simp
  note inst = completed_has_artifact [OF run, of "''nature_articles''" "''nature_tracked.txt''" 0]
  from inst ok
  have mem: "''http://x/node/7'' \<in> tracked (fst (download_article example_config site_up
        ''http://x/node/7'' (fresh_world no_files)))"
    by blast
  from inst ok
  have wr: "writes_of (outfile example_config ''http://x/node/7'')
        (fst (download_article example_config site_up ''http://x/node/7'' (fresh_world no_files)))
      = writes_of (outfile example_config ''http://x/node/7'') (fresh_world no_files) + 1"
    by blast
  from ok mem fresh out tr wr [unfolded out] site ntr
  show ?thesis by (intro conjI)
qed

section \<open>The sleeps between failed attempts\<close>

lemma retry_sleeps_append: "retry_sleeps (xs @ ys) = retry_sleeps xs @ retry_sleeps ys"
  by (simp add: retry_sleeps_def)

lemma retry_loop_all_raise:
  assumes "\<forall>n. \<exists>msg. arun env url n = Raises msg"
  shows "retry_sleeps (trace (fst (retry_loop cfg env url attempts w)))
           = retry_sleeps (trace w)
             @ map (\<lambda>a. retry_delay cfg * a) (takeWhile (\<lambda>a. a < retry_count cfg) attempts)"
proof (induction attempts arbitrary: w)
  case Nil
  show ?case by simp
next
  case (Cons a attempts)
  from assms obtain msg where r: "arun env url (nat a) = Raises msg" by blast
  show ?case
  proof (cases "a < retry_count cfg")
    case True
    then have step: "attempt_once cfg env url a w
        = (emit (RetrySleep (retry_delay cfg * a)) (emit (Fetch url) w), Next)"
      by (simp add: attempt_once_def on_exception_def r Let_def)
    show ?thesis
      using True by (simp add: step Cons.IH) (simp add: emit_def retry_sleeps_def)
  next
    case False
    then have step: "attempt_once cfg env url a w
        = (mark_failed cfg env url msg (emit (Fetch url) w), Return (False, None))"
      by (simp add: attempt_once_def on_exception_def r Let_def)
    show ?thesis
      using False by (simp add: step) (simp add: emit_def mark_failed_def retry_sleeps_def)
  qed
qed

lemma takeWhile_upto: "takeWhile (\<lambda>a. a < n) [1..n] = [1..n - 1]"
proof (cases "1 \<le> n")
  case True
  then have "[1..n] = [1..n - 1] @ [n]" by (simp add: upto_rec2)
  moreover have "takeWhile (\<lambda>a. a < n) ([1..n - 1] @ [n]) = [1..n - 1]"
    by (subst takeWhile_append2) auto
  ultimately show ?thesis by simp
next
  case False
  then show ?thesis by simp
qed

lemma download_article_linear_backoff:
  assumes "\<forall>n. \<exists>msg. arun env url n = Raises msg"
    and "url \<notin> tracked w" and "\<not> path_exists (files w) (outfile cfg url)"
  shows "retry_sleeps (trace (fst (download_article cfg env url w)))
           = retry_sleeps (trace w) @ map (\<lambda>a. retry_delay cfg * a) [1..retry_count cfg - 1]"
  using assms(2,3)
  by (simp add: download_article_def retry_loop_all_raise [OF assms(1)] takeWhile_upto)
     (simp add: emit_def retry_sleeps_def)

text \<open>
  Claim C1 is not what \<^verbatim>\<open>independent.py\<close> does. Its worker makes up to
  \<open>retry_count\<close> attempts, and after the failed attempt number \<open>a\<close> it sleeps
  \<open>retry_delay * a\<close> seconds (the line that the source comments as exponential
  backoff): the sleeps grow linearly. With a delay of 1 and four attempts that all fail
  the sleeps are 1, 2, 3; with the default three attempts they are 1, 2. The worker of
  \<^verbatim>\<open>rekhta-data.py\<close> sleeps \<open>2 ^ a\<close> seconds, counting from 0: 1, 2, 4 with four
  attempts.
\<close>

theorem backoff_is_linear:
  "retry_sleeps (trace (fst (download_article (example_config\<lparr>retry_count := 4, retry_delay := 1\<rparr>)
      site_down ''http://x/node/7'' (fresh_world no_files))))
     = [1, 2, 3]
   \<and> retry_sleeps (trace (fst (download_article example_config
      site_down ''http://x/node/7'' (fresh_world no_files))))
     = [1, 2]
   \<and> retry_sleeps (trace (fst (rekhta_download_article
      \<lparr>rk_download_dir = ''rekhta_ghazal_articles'', rk_track_file = ''tracked_ghazal_articles.txt'',
       rk_retry_attempts = 4\<rparr>
      site_down ''https://www.rekhta.org/ghazals/a?lang=ur'' (fresh_world no_files))))
     = [1, 2, 4]"
  by code_simp

section \<open>What is put into the frontier\<close>

lemma discover_links_props:
  "finite (snd (discover_links env batch s))
   \<and> snd (discover_links env batch s) \<inter> (tracked (wh s) \<union> seen s) = {}
   \<and> snd (discover_links env batch s) \<subseteq> (\<Union>url\<in>set batch. set (page_links env url))
   \<and> tracked (fst (discover_links env batch s)) = tracked (wh s)"
proof (induction batch arbitrary: s)
  case Nil
  show ?case by simp
next
  case (Cons url batch)
  let ?s = "s\<lparr>wh := emit (LinkFetch url) (wh s)\<rparr>"
  from Cons.IH [of ?s] show ?case
    by (auto simp: emit_def split: prod.splits)
qed

lemma wikihow_downloads_tracked:
  "tracked w \<subseteq> tracked (fst (wikihow_downloads cfg env batch w n))"
  by (induction cfg env batch w n rule: wikihow_downloads.induct)
     (auto simp: emit_def Let_def split: response.splits option.splits)

lemma fold_append_line:
  "fold (\<lambda>url fs'. append_text fs' f (url @ [LF])) urls fs
     = fold (\<lambda>u. add_to_tracked u f) urls fs"
  by (simp add: add_to_tracked_def [abs_def])

text \<open>
  Claim C6, amended. In \<^verbatim>\<open>wiki-how.py\<close> the links put into the queue are discovered
  links that are neither tracked nor in \<open>seen\<close> (the URLs that were ever in the
  queue); they are appended in sorted order and added to \<open>seen\<close>. In
  \<^verbatim>\<open>independent.py\<close>, \<open>update_urls_file\<close> appends to the URLs file, in sorted order,
  the new URLs that are not yet lines of that file, and returns their number; it consults
  neither the tracker nor the set of failed URLs.
\<close>

theorem enqueue_filters_and_sorts:
  assumes "finite new_urls" and "fs filename = Text c"
  shows "queue (crawl_step cfg env s)
           = fst (build_batch (wh_batch_size cfg) (tracked (wh s)) (queue s) [])
             @ sorted_list_of_set (new_links_of cfg env s)
       \<and> seen (crawl_step cfg env s) = seen s \<union> new_links_of cfg env s
       \<and> finite (new_links_of cfg env s)
       \<and> (\<forall>url\<in>new_links_of cfg env s.
             url \<notin> tracked (wh (crawl_step cfg env s)) \<and> url \<notin> tracked (wh s) \<and> url \<notin> seen s)
       \<and> fst (update_urls_file new_urls filename fs) filename
           = Text (c @ log_of (sorted_list_of_set (new_urls - load_tracked_urls fs filename)))
       \<and> snd (update_urls_file new_urls filename fs) = card (new_urls - load_tracked_urls fs filename)"
proof -
  obtain queue1 batch where b:
    "build_batch (wh_batch_size cfg) (tracked (wh s)) (queue s) [] = (queue1, batch)"
    by (cases "build_batch (wh_batch_size cfg) (tracked (wh s)) (queue s) []")
  obtain w1 total1 where d:
    "wikihow_downloads cfg env batch (wh s) (total_downloaded s) = (w1, total1)"
    by (cases "wikihow_downloads cfg env batch (wh s) (total_downloaded s)")
  let ?s1 = "s\<lparr>wh := w1, queue := queue1, total_downloaded := total1\<rparr>"
  have nl: "new_links_of cfg env s = snd (discover_links env batch ?s1)"
    by (simp add: new_links_of_def b d)
  have step: "crawl_step cfg env s
      = ?s1\<lparr>wh := fst (discover_links env batch ?s1),
              queue := queue1 @ sorted_list_of_set (new_links_of cfg env s),
              seen := seen s \<union> new_links_of cfg env s\<rparr>"
    by (simp add: crawl_step_def b d nl split: prod.splits)
  have mono: "tracked (wh s) \<subseteq> tracked w1"
    using wikihow_downloads_tracked [of "wh s" cfg env batch "total_downloaded s"] d by simp
  from discover_links_props [of env batch ?s1]
  have props: "finite (new_links_of cfg env s)"
    "new_links_of cfg env s \<inter> (tracked w1 \<union> seen s) = {}"
    "tracked (fst (discover_links env batch ?s1)) = tracked w1"
    by (simp_all add: nl)
  have wiki: "queue (crawl_step cfg env s) = queue1 @ sorted_list_of_set (new_links_of cfg env s)"
    "seen (crawl_step cfg env s) = seen s \<union> new_links_of cfg env s"
    "\<forall>url\<in>new_links_of cfg env s.
        url \<notin> tracked (wh (crawl_step cfg env s)) \<and> url \<notin> tracked (wh s) \<and> url \<notin> seen s"
    using props mono by (auto simp: step)
  let ?add = "new_urls - load_tracked_urls fs filename"
  have fin: "finite ?add" using assms(1) by simp
  have upd: "fst (update_urls_file new_urls filename fs) filename
           = Text (c @ log_of (sorted_list_of_set ?add))"
  proof (cases "?add = {}")
    case True
    then have "sorted_list_of_set ?add = []" by (simp only: sorted_list_of_set_empty)
    with True show ?thesis using assms(2) by (simp add: update_urls_file_def log_of_def)
  next
    case False
    then have "sorted_list_of_set ?add \<noteq> []" using fin by simp
    with False show ?thesis
      using assms(2)
      by (simp add: update_urls_file_def Let_def fold_append_line fold_add_to_tracked)
  qed
  have cnt: "snd (update_urls_file new_urls filename fs) = card ?add"
  proof (cases "?add = {}")
    case True
    then have "card ?add = 0" by (simp only: card.empty)
    with True show ?thesis by (simp add: update_urls_file_def Let_def)
  next
    case False
    then show ?thesis by (simp add: update_urls_file_def Let_def)
  qed
  from wiki props(1) upd cnt b show ?thesis by simp
qed

text \<open>
  Claim C6, as stated, fails for \<^verbatim>\<open>independent.py\<close>: a link that is already
  completed is put into the frontier when the URLs file does not hold it. The tracker
  holds node 8, the URLs file only node 1, whose page links to nodes 9 and 8: both are
  appended to the URLs file and to the list of candidates. (Node 8 is then skipped at
  dispatch: it is not fetched.)
\<close>

theorem completed_link_enqueued_counterexample:
  "''http://x/node/8'' \<in> load_tracked_urls stale_frontier ''tracked.txt''
   \<and> fst (update_urls_file {''http://x/node/9'', ''http://x/node/8''} ''urls.txt'' stale_frontier)
        ''urls.txt''
      = Text ''http://x/node/1\<newline>http://x/node/8\<newline>http://x/node/9\<newline>''
   \<and> (case main example_config False links_site stale_frontier of
         Inl e \<Rightarrow> False
       | Inr s \<Rightarrow>
           candidates s = [''http://x/node/1'', ''http://x/node/8'', ''http://x/node/9'']
           \<and> fetched (trace (st s)) = [''http://x/node/1''])"
  by code_simp

theorem enqueue_filters_and_sorts_witness:
  "finite {''http://x/node/9'', ''http://x/node/8''}
   \<and> (no_files(''urls.txt'' := Text ''http://x/node/1\<newline>http://x/node/8\<newline>'')) ''urls.txt''
       = Text ''http://x/node/1\<newline>http://x/node/8\<newline>''
   \<and> queue (crawl_step wikihow_example wikihow_site wikihow_start)
       = [''https://w/Add'', ''https://w/Zip'']
   \<and> fst (update_urls_file {''http://x/node/9'', ''http://x/node/8''} ''urls.txt''
          (no_files(''urls.txt'' := Text ''http://x/node/1\<newline>http://x/node/8\<newline>'')))
        ''urls.txt''
       = Text ''http://x/node/1\<newline>http://x/node/8\<newline>http://x/node/9\<newline>''"
proof -
  have fin: "finite {''http://x/node/9'', ''http://x/node/8''}" by simp
  have urls_text: "(no_files(''urls.txt'' := Text ''http://x/node/1\<newline>http://x/node/8\<newline>'')) ''urls.txt''
       = Text ''http://x/node/1\<newline>http://x/node/8\<newline>''"
    by simp
  note inst = enqueue_filters_and_sorts
    [where new_urls = "{''http://x/node/9'', ''http://x/node/8''}"
       and fs = "no_files(''urls.txt'' := Text ''http://x/node/1\<newline>http://x/node/8\<newline>'')"
       and filename = "''urls.txt''" and c = "''http://x/node/1\<newline>http://x/node/8\<newline>''"
       and cfg = wikihow_example and env = wikihow_site and s = wikihow_start,
     OF fin urls_text]
  have q: "fst (build_batch (wh_batch_size wikihow_example) (tracked (wh wikihow_start))
              (queue wikihow_start) [])
           @ sorted_list_of_set (new_links_of wikihow_example wikihow_site wikihow_start)
         = [''https://w/Add'', ''https://w/Zip'']"
    by code_simp
  have u: "Text (''http://x/node/1\<newline>http://x/node/8\<newline>''
         @ log_of (sorted_list_of_set ({''http://x/node/9'', ''http://x/node/8''}
             - load_tracked_urls
                 (no_files(''urls.txt'' := Text ''http://x/node/1\<newline>http://x/node/8\<newline>''))
                 ''urls.txt'')))
       = Text ''http://x/node/1\<newline>http://x/node/8\<newline>http://x/node/9\<newline>''"
    by code_simp
  from inst q have 1: "queue (crawl_step wikihow_example wikihow_site wikihow_start)
       = [''https://w/Add'', ''https://w/Zip'']"
    by simp
  from inst u have 2: "fst (update_urls_file {''http://x/node/9'', ''http://x/node/8''} ''urls.txt''
          (no_files(''urls.txt'' := Text ''http://x/node/1\<newline>http://x/node/8\<newline>'')))
        ''urls.txt''
       = Text ''http://x/node/1\<newline>http://x/node/8\<newline>http://x/node/9\<newline>''"
    by simp
  from fin urls_text 1 2 show ?thesis by (intro conjI)
qed

section \<open>The progress file after corruption or loss\<close>

lemma dict_get_set:
  "dict_set d key v = Inr d' \<Longrightarrow> dict_get d' k = (if k = key then Inr v else dict_get d k)"
  by (cases d) (auto simp: dict_set_def dict_get_def AList.update_conv')

lemma load_progress_reset:
  assumes "progress s = Missing \<or> progress s = Unparseable"
  shows "load_progress env s
           = (read_progress (initialize_progress_file env s), initialize_progress_file env s)"
  using assms by (auto simp: load_progress_def read_progress_def)

lemma load_progress_Doc:
  "progress s = Doc d \<Longrightarrow> load_progress env s = (Inr d, s)"
  by (simp add: load_progress_def read_progress_def)

lemma update_progress_reset:
  assumes "progress s = Missing \<or> progress s = Unparseable"
  shows "update_progress env cu fu s = update_progress env cu fu (initialize_progress_file env s)"
  using assms
  by (auto simp: update_progress_def load_progress_def read_progress_def initialize_progress_file_def)

lemmas bbc_defs = update_progress_def finalize_progress_def load_progress_def read_progress_def
  initialize_progress_file_def record_url_def statistics_def and_then_def dict_get_def
  dict_set_def py_add_def py_positive_def as_int_def is_number_def

lemmas field_defs = int_field_def list_field_def str_field_def given_def url_entries_def

text \<open>
  Claim C7. When the progress file is missing or cannot be parsed, \<open>update_progress\<close>
  and \<open>finalize_progress\<close> behave as on a file that was just initialised: the update
  is applied to the default record and written, nothing is logged as an error, and the
  run goes on. (Both functions are total: no state of the file makes them raise.)
\<close>

theorem progress_file_recovers:
  assumes "progress s = Missing \<or> progress s = Unparseable"
  shows "update_progress env cu fu s = update_progress env cu fu (initialize_progress_file env s)
       \<and> finalize_progress env status s
           = finalize_progress env status (initialize_progress_file env s)
       \<and> logged (update_progress env cu fu s) = logged s
       \<and> (\<exists>d. progress (update_progress env cu fu s) = Doc d
              \<and> str_field d ''started_at'' = Some (clock env (ticks s))
              \<and> str_field d ''status'' = Some ''running''
              \<and> int_field d ''total_articles'' = Some 0
              \<and> int_field d ''completed_articles'' = Some (if given cu then 1 else 0)
              \<and> int_field d ''failed_articles'' = Some (if given fu then 1 else 0)
              \<and> list_field d ''completed_urls'' = Some (url_entries cu)
              \<and> list_field d ''failed_urls'' = Some (url_entries fu))
       \<and> ((\<exists>secs. seconds_between env (clock env (ticks s + 2)) (clock env (ticks s)) = Inr secs) \<longrightarrow>
            logged (finalize_progress env status s) = logged s
            \<and> (\<exists>d. progress (finalize_progress env status s) = Doc d
                  \<and> str_field d ''started_at'' = Some (clock env (ticks s))
                  \<and> str_field d ''status'' = Some status
                  \<and> int_field d ''completed_articles'' = Some 0
                  \<and> int_field d ''failed_articles'' = Some 0))"
proof -
  have u: "update_progress env cu fu s = update_progress env cu fu (initialize_progress_file env s)"
    using assms by (rule update_progress_reset)
  have f: "finalize_progress env status s
           = finalize_progress env status (initialize_progress_file env s)"
  proof -
    have "load_progress env (s\<lparr>finalized := finalized s @ [status]\<rparr>)
        = load_progress env ((initialize_progress_file env s)\<lparr>finalized := finalized s @ [status]\<rparr>)"
      using assms
      by (auto simp: load_progress_def read_progress_def initialize_progress_file_def)
    then show ?thesis
      by (simp add: finalize_progress_def initialize_progress_file_def)
  qed
  have lu: "logged (update_progress env cu fu (initialize_progress_file env s)) = logged s"
    by (simp add: bbc_defs split: option.splits)
  have du: "\<exists>d. progress (update_progress env cu fu (initialize_progress_file env s)) = Doc d
              \<and> str_field d ''started_at'' = Some (clock env (ticks s))
              \<and> str_field d ''status'' = Some ''running''
              \<and> int_field d ''total_articles'' = Some 0
              \<and> int_field d ''completed_articles'' = Some (if given cu then 1 else 0)
              \<and> int_field d ''failed_articles'' = Some (if given fu then 1 else 0)
              \<and> list_field d ''completed_urls'' = Some (url_entries cu)
              \<and> list_field d ''failed_urls'' = Some (url_entries fu)"
    by (simp add: bbc_defs field_defs split: option.splits)
  have fin: "(\<exists>secs. seconds_between env (clock env (ticks s + 2)) (clock env (ticks s)) = Inr secs) \<longrightarrow>
            logged (finalize_progress env status (initialize_progress_file env s)) = logged s
            \<and> (\<exists>d. progress (finalize_progress env status (initialize_progress_file env s)) = Doc d
                  \<and> str_field d ''started_at'' = Some (clock env (ticks s))
                  \<and> str_field d ''status'' = Some status
                  \<and> int_field d ''completed_articles'' = Some 0
                  \<and> int_field d ''failed_articles'' = Some 0)"
    by (auto simp: bbc_defs field_defs split: option.splits)
  from u f lu du fin show ?thesis by simp
qed


theorem progress_file_recovers_witness:
  "progress new_scraper = Missing
   \<and> progress (update_progress bbc_example (Some ''https://www.bbc.com/urdu/articles/c1'') None
        new_scraper)
      = Doc (JObj
          [(''started_at'', JStr ''2025-01-01T00:00:00''),
           (''total_articles'', JInt 0),
           (''completed_articles'', JInt 1),
           (''failed_articles'', JInt 0),
           (''completed_urls'', JList [JStr ''https://www.bbc.com/urdu/articles/c1'']),
           (''failed_urls'', JList []),
           (''status'', JStr ''running''),
           (''last_updated'', JStr ''2025-01-01T00:00:02'')])
   \<and> logged (update_progress bbc_example (Some ''https://www.bbc.com/urdu/articles/c1'') None
        new_scraper) = logged new_scraper
   \<and> progress (new_scraper\<lparr>progress := Unparseable\<rparr>) = Unparseable
   \<and> seconds_between bbc_example (clock bbc_example (ticks new_scraper + 2))
        (clock bbc_example (ticks new_scraper)) = Inr (JReal ''2.0'')
   \<and> logged (finalize_progress bbc_example ''completed'' (new_scraper\<lparr>progress := Unparseable\<rparr>))
      = logged (new_scraper\<lparr>progress := Unparseable\<rparr>)
   \<and> progress (finalize_progress bbc_example ''completed'' (new_scraper\<lparr>progress := Unparseable\<rparr>))
      = Doc (JObj
          [(''started_at'', JStr ''2025-01-01T00:00:00''),
           (''total_articles'', JInt 0),
           (''completed_articles'', JInt 0),
           (''failed_articles'', JInt 0),
           (''completed_urls'', JList []),
           (''failed_urls'', JList []),
           (''status'', JStr ''completed''),
           (''last_updated'', JStr ''2025-01-01T00:00:03''),
           (''ended_at'', JStr ''2025-01-01T00:00:02''),
           (''statistics'',
            JObj [(''success_rate'', JStr ''0.00%''),
                  (''total_processed'', JInt 0),
                  (''runtime_seconds'', JReal ''2.0'')])])"
proof -
  have m: "progress new_scraper = Missing \<or> progress new_scraper = Unparseable"
    by (simp add: new_scraper_def)
  have u: "progress (new_scraper\<lparr>progress := Unparseable\<rparr>) = Missing
         \<or> progress (new_scraper\<lparr>progress := Unparseable\<rparr>) = Unparseable"
    by simp
  have secs: "seconds_between bbc_example (clock bbc_example (ticks new_scraper + 2))
        (clock bbc_example (ticks new_scraper)) = Inr (JReal ''2.0'')"
    by code_simp
  have secs': "\<exists>secs. seconds_between bbc_example
        (clock bbc_example (ticks (new_scraper\<lparr>progress := Unparseable\<rparr>) + 2))
        (clock bbc_example (ticks (new_scraper\<lparr>progress := Unparseable\<rparr>))) = Inr secs"
    using secs by simp
  have 1: "progress (update_progress bbc_example (Some ''https://www.bbc.com/urdu/articles/c1'') None
        new_scraper)
      = Doc (JObj
          [(''started_at'', JStr ''2025-01-01T00:00:00''),
           (''total_articles'', JInt 0),
           (''completed_articles'', JInt 1),
           (''failed_articles'', JInt 0),
           (''completed_urls'', JList [JStr ''https://www.bbc.com/urdu/articles/c1'']),
           (''failed_urls'', JList []),
           (''status'', JStr ''running''),
           (''last_updated'', JStr ''2025-01-01T00:00:02'')])"
    by code_simp
  have 2: "progress (finalize_progress bbc_example ''completed'' (new_scraper\<lparr>progress := Unparseable\<rparr>))
      = Doc (JObj
          [(''started_at'', JStr ''2025-01-01T00:00:00''),
           (''total_articles'', JInt 0),
           (''completed_articles'', JInt 0),
           (''failed_articles'', JInt 0),
           (''completed_urls'', JList []),
           (''failed_urls'', JList []),
           (''status'', JStr ''completed''),
           (''last_updated'', JStr ''2025-01-01T00:00:03''),
           (''ended_at'', JStr ''2025-01-01T00:00:02''),
           (''statistics'',
            JObj [(''success_rate'', JStr ''0.00%''),
                  (''total_processed'', JInt 0),
                  (''runtime_seconds'', JReal ''2.0'')])])"
    by code_simp
  from progress_file_recovers [OF m, of bbc_example "Some ''https://www.bbc.com/urdu/articles/c1''" None]
  have 3: "logged (update_progress bbc_example (Some ''https://www.bbc.com/urdu/articles/c1'') None
        new_scraper) = logged new_scraper"
    by blast
  from progress_file_recovers [OF u, of bbc_example None None "''completed''"] secs'
  have 4: "logged (finalize_progress bbc_example ''completed'' (new_scraper\<lparr>progress := Unparseable\<rparr>))
      = logged (new_scraper\<lparr>progress := Unparseable\<rparr>)"
    by blast
  have 0: "progress new_scraper = Missing" by (simp add: new_scraper_def)
  have 5: "progress (new_scraper\<lparr>progress := Unparseable\<rparr>) = Unparseable" by simp
  from 0 1 3 5 secs 4 2 show ?thesis by (intro conjI)
qed

section \<open>An interrupt while the batches are processed\<close>

lemma finalize_progress_finalized:
  "finalized (finalize_progress env status s) = finalized s @ [status]"
  by (auto simp: finalize_progress_def load_progress_def read_progress_def
      initialize_progress_file_def split: progress_file.splits sum.splits)

lemma get_article_urls_finalized:
  "finalized (snd (get_article_urls env t s)) = finalized s"
  by (auto simp: get_article_urls_def split: option.splits list.splits sum.splits)

lemma run_scraper_finalized:
  "finalized (snd (run_scraper env n target resume s))
     \<in> {finalized s, finalized s @ [''failed''], finalized s @ [''error''],
        finalized s @ [''completed'']}"
proof -
  obtain found s1 where gu: "get_article_urls env target s = (found, s1)"
    by (cases "get_article_urls env target s")
  have f1: "finalized s1 = finalized s"
    using get_article_urls_finalized [of env target s] gu by simp
  obtain article_urls s2 where r: "(if resume
                      then (case processed_urls s1 of
                              Inl e \<Rightarrow> (found, s1\<lparr>logged := logged s1 @ [Caught e]\<rparr>)
                            | Inr already \<Rightarrow> (filter (\<lambda>url. url \<notin> already) found, s1))
                      else (found, s1)) = (article_urls, s2)"
    by (cases "(if resume
                      then (case processed_urls s1 of
                              Inl e \<Rightarrow> (found, s1\<lparr>logged := logged s1 @ [Caught e]\<rparr>)
                            | Inr already \<Rightarrow> (filter (\<lambda>url. url \<notin> already) found, s1))
                      else (found, s1))")
  then have f2: "finalized s2 = finalized s"
    using f1 by (auto split: if_splits sum.splits)
  show ?thesis
  proof (cases "batches_of n article_urls")
    case Nil
    then show ?thesis
      using f1 f2 by (simp add: run_scraper_def gu r finalize_progress_finalized)
  next
    case (Cons b bs)
    then show ?thesis
      using f1 f2 by (simp add: run_scraper_def gu r finalize_progress_finalized)
  qed
qed

lemma bbc_main_raises:
  "fst (bbc_main env args s) \<in> {Inr 1, Inl AttributeError, Inl FileExistsError}
   \<and> finalized (snd (bbc_main env args s)) = finalized s"
  by (simp add: bbc_main_def construct_def initialize_progress_file_def)


text \<open>
  Claim C8 fails on \<^verbatim>\<open>bbc-articles.py\<close>. The handler that finalizes the progress
  file with the status \<open>interrupted\<close> guards the loop over the batches, but as the file
  is written no batch is ever processed, so there is no batch processing that an
  interrupt could meet. \<open>run_batch\<close> and \<open>run_scraper\<close> stand at module level: the
  loop fails on the lookup of \<^verbatim>\<open>self.run_batch\<close> and every run that has a batch is
  finalized with the status \<open>error\<close>; whatever the environment, \<open>run_scraper\<close> never
  finalizes with \<open>interrupted\<close>. \<open>main\<close> does not even get that far: the constructor
  raises an \<^verbatim>\<open>AttributeError\<close> outside every handler, and the progress file keeps the
  status \<open>running\<close>. With \<^verbatim>\<open>--count 100 --batch-size 2\<close> and five articles on the
  site: \<open>main\<close> ends with that exception; \<open>run_scraper\<close>, applied to what the
  constructor leaves, logs the \<^verbatim>\<open>AttributeError\<close> and writes the status \<open>error\<close>.
  \<open>finalize_progress\<close> itself does what the claim says when it is called: after two
  completed and one failed article it writes the status it is given with a success rate
  of 66.67%, three articles processed and the runtime.
\<close>

theorem interrupt_is_never_finalized:
  "finalized (snd (run_scraper env n target resume s))
     \<in> {finalized s, finalized s @ [''failed''], finalized s @ [''error''],
        finalized s @ [''completed'']}
   \<and> fst (bbc_main env args s) \<in> {Inr 1, Inl AttributeError, Inl FileExistsError}
   \<and> finalized (snd (bbc_main env args s)) = finalized s
   \<and> bbc_main bbc_example example_arguments new_scraper
      = (Inl AttributeError,
         \<lparr>progress = Doc (JObj
            [(''started_at'', JStr ''2025-01-01T00:00:01''),
             (''total_articles'', JInt 0),
             (''completed_articles'', JInt 0),
             (''failed_articles'', JInt 0),
             (''completed_urls'', JList []),
             (''failed_urls'', JList []),
             (''status'', JStr ''running''),
             (''last_updated'', JStr ''2025-01-01T00:00:02'')]),
          ticks = 3, logged = [], finalized = []\<rparr>)
   \<and> run_scraper bbc_example 2 100 False (snd (construct bbc_example new_scraper))
      = (Inr (0, 0),
         \<lparr>progress = Doc (JObj
            [(''started_at'', JStr ''2025-01-01T00:00:01''),
             (''total_articles'', JInt 5),
             (''completed_articles'', JInt 0),
             (''failed_articles'', JInt 0),
             (''completed_urls'', JList []),
             (''failed_urls'', JList []),
             (''status'', JStr ''error''),
             (''last_updated'', JStr ''2025-01-01T00:00:04''),
             (''ended_at'', JStr ''2025-01-01T00:00:03''),
             (''statistics'',
              JObj [(''success_rate'', JStr ''0.00%''),
                    (''total_processed'', JInt 0),
                    (''runtime_seconds'', JReal ''2.0'')])]),
          ticks = 5, logged = [Caught AttributeError], finalized = [''error'']\<rparr>)
   \<and> finalize_progress bbc_example ''interrupted''
        (update_progress bbc_example None (Some ''https://www.bbc.com/urdu/articles/c3'')
          (update_progress bbc_example (Some ''https://www.bbc.com/urdu/articles/c2'') None
            (update_progress bbc_example (Some ''https://www.bbc.com/urdu/articles/c1'') None
               new_scraper)))
      = \<lparr>progress = Doc (JObj
            [(''started_at'', JStr ''2025-01-01T00:00:00''),
             (''total_articles'', JInt 0),
             (''completed_articles'', JInt 2),
             (''failed_articles'', JInt 1),
             (''completed_urls'', JList [JStr ''https://www.bbc.com/urdu/articles/c1'',
                                         JStr ''https://www.bbc.com/urdu/articles/c2'']),
             (''failed_urls'', JList [JStr ''https://www.bbc.com/urdu/articles/c3'']),
             (''status'', JStr ''interrupted''),
             (''last_updated'', JStr ''2025-01-01T00:00:06''),
             (''ended_at'', JStr ''2025-01-01T00:00:05''),
             (''statistics'',
              JObj [(''success_rate'', JStr ''66.67%''),
                    (''total_processed'', JInt 3),
                    (''runtime_seconds'', JReal ''5.0'')])]),
         ticks = 7, logged = [], finalized = [''interrupted'']\<rparr>"
proof -
  have entry: "bbc_main bbc_example example_arguments new_scraper
      = (Inl AttributeError,
         \<lparr>progress = Doc (JObj
            [(''started_at'', JStr ''2025-01-01T00:00:01''),
             (''total_articles'', JInt 0),
             (''completed_articles'', JInt 0),
             (''failed_articles'', JInt 0),
             (''completed_urls'', JList []),
             (''failed_urls'', JList []),
             (''status'', JStr ''running''),
             (''last_updated'', JStr ''2025-01-01T00:00:02'')]),
          ticks = 3, logged = [], finalized = []\<rparr>)"
    by code_simp
  have run: "run_scraper bbc_example 2 100 False (snd (construct bbc_example new_scraper))
      = (Inr (0, 0),
         \<lparr>progress = Doc (JObj
            [(''started_at'', JStr ''2025-01-01T00:00:01''),
             (''total_articles'', JInt 5),
             (''completed_articles'', JInt 0),
             (''failed_articles'', JInt 0),
             (''completed_urls'', JList []),
             (''failed_urls'', JList []),
             (''status'', JStr ''error''),
             (''last_updated'', JStr ''2025-01-01T00:00:04''),
             (''ended_at'', JStr ''2025-01-01T00:00:03''),
             (''statistics'',
              JObj [(''success_rate'', JStr ''0.00%''),
                    (''total_processed'', JInt 0),
                    (''runtime_seconds'', JReal ''2.0'')])]),
          ticks = 5, logged = [Caught AttributeError], finalized = [''error'']\<rparr>)"
    by code_simp
  have stats: "finalize_progress bbc_example ''interrupted''
        (update_progress bbc_example None (Some ''https://www.bbc.com/urdu/articles/c3'')
          (update_progress bbc_example (Some ''https://www.bbc.com/urdu/articles/c2'') None
            (update_progress bbc_example (Some ''https://www.bbc.com/urdu/articles/c1'') None
               new_scraper)))
      = \<lparr>progress = Doc (JObj
            [(''started_at'', JStr ''2025-01-01T00:00:00''),
             (''total_articles'', JInt 0),
             (''completed_articles'', JInt 2),
             (''failed_articles'', JInt 1),
             (''completed_urls'', JList [JStr ''https://www.bbc.com/urdu/articles/c1'',
                                         JStr ''https://www.bbc.com/urdu/articles/c2'']),
             (''failed_urls'', JList [JStr ''https://www.bbc.com/urdu/articles/c3'']),
             (''status'', JStr ''interrupted''),
             (''last_updated'', JStr ''2025-01-01T00:00:06''),
             (''ended_at'', JStr ''2025-01-01T00:00:05''),
             (''statistics'',
              JObj [(''success_rate'', JStr ''66.67%''),
                    (''total_processed'', JInt 3),
                    (''runtime_seconds'', JReal ''5.0'')])]),
         ticks = 7, logged = [], finalized = [''interrupted'']\<rparr>"
    by code_simp
  note general = run_scraper_finalized [of env n target resume s] bbc_main_raises [of env args s]
  from general entry run stats show ?thesis by (intro conjI) simp_all
qed

section \<open>The download cap\<close>

lemma wikihow_downloads_count:
  assumes "downloaded \<le> wh_max_downloads cfg" and "list_all (returns_markdown env) batch"
  shows "snd (wikihow_downloads cfg env batch w downloaded)
         = min (downloaded + int (length batch)) (wh_max_downloads cfg)"
  using assms
proof (induction batch arbitrary: w downloaded)
  case Nil
  then show ?case by simp
next
  case (Cons url rest)
  from Cons.prems(2) obtain html md where r: "arun env url 1 = Result html (Some md)"
    by (auto simp: returns_markdown_def split: response.splits option.splits)
  from Cons.prems(2) have rest: "list_all (returns_markdown env) rest" by simp
  show ?case
  proof (cases "wh_max_downloads cfg \<le> downloaded")
    case True
    with Cons.prems(1) show ?thesis by simp
  next
    case False
    then have le: "downloaded + 1 \<le> wh_max_downloads cfg" by simp
    from False show ?thesis
      using Cons.IH [OF le rest] r by (simp add: Let_def)
  qed
qed

text \<open>
  Claim C2 fails on \<^verbatim>\<open>independent.py\<close>. The script calls \<^verbatim>\<open>max_downloads\<close> the
  ``maximum number of articles to download'', but \<open>main\<close> compares the completed count
  with it only before a batch is dispatched. With a cap of 5, the default batch size of
  10 and twelve candidates that all succeed, the first batch is dispatched and finished:
  ten URLs are completed, not five, both when the event loop resumes the suspended
  workers in the order of their creation and when it always resumes the last of them.
  The loop of \<^verbatim>\<open>wiki-how.py\<close> tests its cap before every URL and stops at five on
  the same pages.
\<close>

theorem cap_is_overshot:
  "max_downloads example_config = 5 \<and> batch_size example_config = 10
   \<and> load_candidate_urls (setup_environment example_config twelve_frontier) ''urls.txt''
      = twelve_pages
   \<and> list_all (succeeds site_up) twelve_pages
   \<and> (case main example_config False site_up twelve_frontier of
         Inl e \<Rightarrow> False
       | Inr s \<Rightarrow>
           tracked (st s) = set (take 10 twelve_pages) \<and> card (tracked (st s)) = 10
           \<and> count s = 10 \<and> total_successful s = 10
           \<and> length (fetched (trace (st s))) = 10
           \<and> load_tracked_urls (files (st s)) ''tracked.txt'' = set (take 10 twelve_pages))
   \<and> (case main example_config False (site_up\<lparr>next_worker := (\<lambda>n urls. length urls - 1)\<rparr>)
              twelve_frontier of
         Inl e \<Rightarrow> False
       | Inr s \<Rightarrow>
           tracked (st s) = set (take 10 twelve_pages) \<and> card (tracked (st s)) = 10
           \<and> count s = 10 \<and> total_successful s = 10
           \<and> length (fetched (trace (st s))) = 10
           \<and> load_tracked_urls (files (st s)) ''tracked.txt'' = set (take 10 twelve_pages))
   \<and> snd (wikihow_downloads (wikihow_example\<lparr>wh_max_downloads := 5\<rparr>) site_up twelve_pages
            (fresh_world no_files) 0) = 5"
proof -
  have config: "max_downloads example_config = 5 \<and> batch_size example_config = 10"
    by code_simp
  have frontier:
    "load_candidate_urls (setup_environment example_config twelve_frontier) ''urls.txt''
      = twelve_pages"
    by code_simp
  have pages: "list_all (succeeds site_up) twelve_pages" by code_simp
  have in_order: "case main example_config False site_up twelve_frontier of
         Inl e \<Rightarrow> False
       | Inr s \<Rightarrow>
           tracked (st s) = set (take 10 twelve_pages) \<and> card (tracked (st s)) = 10
           \<and> count s = 10 \<and> total_successful s = 10
           \<and> length (fetched (trace (st s))) = 10
           \<and> load_tracked_urls (files (st s)) ''tracked.txt'' = set (take 10 twelve_pages)"
    by code_simp
  have last_first:
    "case main example_config False (site_up\<lparr>next_worker := (\<lambda>n urls. length urls - 1)\<rparr>)
              twelve_frontier of
         Inl e \<Rightarrow> False
       | Inr s \<Rightarrow>
           tracked (st s) = set (take 10 twelve_pages) \<and> card (tracked (st s)) = 10
           \<and> count s = 10 \<and> total_successful s = 10
           \<and> length (fetched (trace (st s))) = 10
           \<and> load_tracked_urls (files (st s)) ''tracked.txt'' = set (take 10 twelve_pages)"
    by code_simp
  have "(0::int) \<le> wh_max_downloads (wikihow_example\<lparr>wh_max_downloads := 5\<rparr>)" by simp
  moreover have "list_all (returns_markdown site_up) twelve_pages" by code_simp
  ultimately have "snd (wikihow_downloads (wikihow_example\<lparr>wh_max_downloads := 5\<rparr>) site_up
            twelve_pages (fresh_world no_files) 0)
     = min (0 + int (length twelve_pages)) (wh_max_downloads (wikihow_example\<lparr>wh_max_downloads := 5\<rparr>))"
    by (rule wikihow_downloads_count)
  also have "\<dots> = 5" by code_simp
  finally have sibling: "snd (wikihow_downloads (wikihow_example\<lparr>wh_max_downloads := 5\<rparr>) site_up
            twelve_pages (fresh_world no_files) 0) = 5" .
  from config frontier pages in_order last_first sibling show ?thesis by (intro conjI) simp_all
qed

end
